theory Spec2Isabelle
  imports Main
begin

section \<open>JavaScript values used by the analysis pipeline\<close>

text \<open>
  Strings are character lists. A value that may be \<^verbatim>\<open>undefined\<close> or \<^verbatim>\<open>null\<close> is an
  option. JavaScript tests such values by truthiness: \<^verbatim>\<open>undefined\<close>, \<^verbatim>\<open>null\<close> and
  the empty string are falsy, every other string is truthy.
\<close>

definition truthy :: "string option \<Rightarrow> bool" where
  "truthy v = (case v of None \<Rightarrow> False | Some s \<Rightarrow> s \<noteq> [])"

text \<open>\<^verbatim>\<open>a || b\<close> on an optional string and a default.\<close>

definition or_else :: "string option \<Rightarrow> string \<Rightarrow> string" where
  "or_else v d = (case v of None \<Rightarrow> d | Some s \<Rightarrow> if s = [] then d else s)"

text \<open>
  An array length, an HTTP status and a loop index are non-negative integers below
  \<open>2^32\<close>. The runtime prints such a number in decimal.
\<close>

definition digit_char :: "nat \<Rightarrow> char" where
  "digit_char d = ''0123456789'' ! d"

fun string_of_nat :: "nat \<Rightarrow> string" where
  "string_of_nat n =
     (if n < 10 then [digit_char n]
      else string_of_nat (n div 10) @ [digit_char (n mod 10)])"

text \<open>
  Every other JavaScript number is an IEEE-754 double: an impression count is what
  \<^verbatim>\<open>parseFloat\<close> returned, and a sum of impressions is what the runtime's addition
  gives, rounding included. The model does not fix this arithmetic. The three operations of
  the runtime that the pipeline applies to such numbers are a parameter of the model, over
  a type \<open>'n\<close> of numbers: the literal \<^verbatim>\<open>0\<close>, the addition \<^verbatim>\<open>a + b\<close>, and the rendering of a
  number in a template literal (\<^verbatim>\<open>Number::toString\<close>).
\<close>

record 'n number_system =
  num_zero :: 'n
  num_add :: "'n \<Rightarrow> 'n \<Rightarrow> 'n"
  num_toString :: "'n \<Rightarrow> string"

section \<open>Fingerprint derivation (AIAnalysis.tsx, \<^verbatim>\<open>dataKey\<close>)\<close>

text \<open>
  \<^verbatim>\<open>ProcessedCampaignData\<close>: the fields read by the functions embedded here are the
  date (a JavaScript \<^verbatim>\<open>Date\<close>, milliseconds since the epoch) and the impression count (a
  number). The remaining fields of the interface live in the extension of the record.
\<close>

record 'n campaign_row =
  date :: int
  impressions :: 'n

datatype period_filter = Seven_days | All_period

text \<open>\<^verbatim>\<open>data.reduce((sum, item) => sum + item.impressions, 0)\<close>\<close>

definition totalImpressions :: "'n number_system \<Rightarrow> ('n, 'a) campaign_row_scheme list \<Rightarrow> 'n" where
  "totalImpressions ns data = foldl (\<lambda>sum item. num_add ns sum (impressions item)) (num_zero ns) data"

text \<open>
  \<^verbatim>\<open>
  const dataKey = useMemo(() => {
    if (periodFilter !== '7days' || data.length === 0) return null;
    const totalRecords = data.length;
    const totalImpressions = data.reduce((sum, item) => sum + item.impressions, 0);
    return `${selectedCampaign || 'all'}-${totalRecords}-${totalImpressions}`;
  }, [data, periodFilter, selectedCampaign]);
  \<close>
\<close>

definition dataKey ::
  "'n number_system \<Rightarrow> period_filter \<Rightarrow> string option \<Rightarrow> ('n, 'a) campaign_row_scheme list
     \<Rightarrow> string option" where
  "dataKey ns periodFilter selectedCampaign data =
     (if periodFilter \<noteq> Seven_days \<or> length data = 0 then None
      else
        let totalRecords = length data
        in Some (or_else selectedCampaign ''all'' @ ''-'' @
                 string_of_nat totalRecords @ ''-'' @
                 num_toString ns (totalImpressions ns data)))"

section \<open>Errors, HTTP outcomes and observable events\<close>

text \<open>
  A JavaScript error value, as far as the pipeline reads it: \<^verbatim>\<open>error.response?.status\<close>,
  \<^verbatim>\<open>error.response?.data?.error?.message\<close> and \<^verbatim>\<open>error.message\<close>. An error made by
  \<^verbatim>\<open>new Error(msg)\<close> has no response.
\<close>

datatype js_error =
  Js_error (response_status: "nat option") (response_message: "string option") (message: string)

definition new_Error :: "string \<Rightarrow> js_error" where
  "new_Error msg = Js_error None None msg"

text \<open>The \<^verbatim>\<open>TypeError\<close> of a property read on \<^verbatim>\<open>undefined\<close> or \<^verbatim>\<open>null\<close>.\<close>

definition type_error :: js_error where
  "type_error = new_Error ''Cannot read properties of undefined''"

text \<open>
  An axios call resolves with a status and a body, or rejects with an error (a status
  outside 2xx, a timeout, a network failure).
\<close>

datatype 'a axios_result = Resolved (response_code: nat) (response_body: 'a) | Rejected js_error

text \<open>
  The body of a \<^verbatim>\<open>generateContent\<close> response, along the path
  \<^verbatim>\<open>response.data.candidates[0].content.parts[0].text\<close>. \<open>None\<close> stands for a property
  that is absent; \<open>No_data\<close> for a body that is \<^verbatim>\<open>null\<close> or \<^verbatim>\<open>undefined\<close>.
\<close>

datatype part = Part (part_text: string)
datatype content = Content (content_parts: "part list option")
datatype candidate = Candidate (cand_content: "content option")
datatype response_data = No_data | Data (candidates: "candidate list option")

text \<open>A row of the history list and the answer of a cache lookup.\<close>

record history_entry =
  h_date :: string
  h_analysis :: string
  h_timestamp :: string

record cache_response =
  analysis :: string
  cached :: bool
  timestamp :: string

text \<open>
  What a run does to the outside world, in order. A backend call and a store write carry
  their outcome (for \<open>Storage_setItem\<close>: the error thrown, if any).
\<close>

datatype event =
    Backend_call string "response_data axios_result"
  | Wait nat
  | Api_get string
  | Api_post string string "unit axios_result"
  | Api_history string
  | Storage_getItem string
  | Storage_setItem string string "js_error option"
  | Storage_clean
  | Build_prompt

text \<open>
  The outside world is a state of type \<open>'w\<close>, threaded through every call. The record
  holds the operations the client code calls on it and the build-time configuration.
  \<^item> \<open>axios_post_gemini url prompt\<close>: the POST to the text-generation backend;
  \<^item> \<open>axios_get_cache\<close>, \<open>axios_post_cache\<close>, \<open>axios_get_history\<close>: the calls to the
    persistence endpoint, used when \<open>CACHE_API_URL\<close> is set (production);
  \<^item> \<open>localStorage_getItem\<close>, \<open>localStorage_setItem\<close>: the browser store, used otherwise;
  \<^item> \<open>cleanOldCache\<close>: removes old local entries; its body is wrapped in its own
    \<^verbatim>\<open>try/catch\<close>, so it never throws;
  \<^item> \<open>buildAnalysisPrompt\<close>: renders the prompt (it fetches the benchmark tables, so it
    may throw);
  \<^item> \<open>date_now\<close>: the clock, in milliseconds since the epoch; \<open>toISOString\<close>: the
    ISO-8601 rendering of an instant, in UTC;
  \<^item> \<open>subDays\<close> and \<open>format_date\<close>: \<^verbatim>\<open>subDays(d, n)\<close> and \<^verbatim>\<open>format(d, 'yyyy-MM-dd')\<close>
    of date-fns, which step back \<open>n\<close> calendar days and name the calendar day of an
    instant in the browser's local time zone.
\<close>

record ('r, 'w) env =
  API_KEY :: string
  CACHE_API_URL :: "string option"
  axios_post_gemini :: "string \<Rightarrow> string \<Rightarrow> 'w \<Rightarrow> response_data axios_result \<times> 'w"
  axios_get_cache :: "string \<Rightarrow> string \<Rightarrow> 'w \<Rightarrow> cache_response option axios_result \<times> 'w"
  axios_post_cache :: "string \<Rightarrow> string \<Rightarrow> string \<Rightarrow> 'w \<Rightarrow> unit axios_result \<times> 'w"
  axios_get_history :: "string \<Rightarrow> string \<Rightarrow> 'w \<Rightarrow> history_entry list axios_result \<times> 'w"
  localStorage_getItem :: "string \<Rightarrow> 'w \<Rightarrow> js_error + string option"
  localStorage_setItem :: "string \<Rightarrow> string \<Rightarrow> 'w \<Rightarrow> js_error + 'w"
  cleanOldCache :: "'w \<Rightarrow> 'w"
  buildAnalysisPrompt :: "'r list \<Rightarrow> 'r list option \<Rightarrow> 'w \<Rightarrow> (js_error + string) \<times> 'w"
  date_now :: "'w \<Rightarrow> int"
  toISOString :: "int \<Rightarrow> string"
  subDays :: "int \<Rightarrow> nat \<Rightarrow> int"
  format_date :: "int \<Rightarrow> string"

section \<open>Fallback orchestrator (gemini.ts, \<^verbatim>\<open>callGeminiAPI\<close>)\<close>

definition MODELS :: "string list" where
  "MODELS = [''gemini-robotics-er-1.5-preview'', ''gemini-2.5-flash-lite'', ''gemini-2.5-flash'']"

definition gemini_url :: "string \<Rightarrow> string \<Rightarrow> string" where
  "gemini_url model key =
     ''https://generativelanguage.googleapis.com/v1beta/models/'' @ model @
     '':generateContent?key='' @ key"

text \<open>\<^verbatim>\<open>`Modelo ${model} nao retornou conteudo valido`\<close>, with the accented letters of the
  source as UTF-8 bytes.\<close>

definition no_content_message :: "string \<Rightarrow> string" where
  "no_content_message model =
     ''Modelo '' @ model @ '' n'' @ [CHR 0xC3, CHR 0xA3] @ ''o retornou conte'' @
     [CHR 0xC3, CHR 0xBA] @ ''do v'' @ [CHR 0xC3, CHR 0xA1] @ ''lido''"

text \<open>\<^verbatim>\<open>`Erro fatal na API do Gemini (${statusCode}): ${errorMessage}`\<close>\<close>

definition fatal_message :: "nat \<Rightarrow> string \<Rightarrow> string" where
  "fatal_message statusCode errorMessage =
     ''Erro fatal na API do Gemini ('' @ string_of_nat statusCode @ ''): '' @ errorMessage"

text \<open>
  The message of the final throw: the number of models, the last error's message
  (\<^verbatim>\<open>lastError?.message || 'Desconhecido'\<close>), and a request to retry later.
\<close>

definition all_failed_message :: "nat \<Rightarrow> js_error option \<Rightarrow> string" where
  "all_failed_message n lastError =
     ''Todos os '' @ string_of_nat n @
     '' modelos falharam ou atingiram o limite. '' @
     [CHR 0xC3, CHR 0x9A] @ ''ltimo erro: '' @
     or_else (map_option message lastError) ''Desconhecido'' @ ''. '' @
     ''Tente novamente em alguns minutos.''"

text \<open>
  \<^verbatim>\<open>response.data.candidates[0].content.parts[0].text\<close> on a non-empty candidate list:
  the text, or a \<^verbatim>\<open>TypeError\<close> when the content, its parts or the first part is absent.
\<close>

definition first_text :: "candidate list \<Rightarrow> js_error + string" where
  "first_text cs =
     (case cand_content (hd cs) of
        None \<Rightarrow> Inl type_error
      | Some c \<Rightarrow>
          (case content_parts c of
             None \<Rightarrow> Inl type_error
           | Some [] \<Rightarrow> Inl type_error
           | Some (p # _) \<Rightarrow> Inr (part_text p)))"

text \<open>How one iteration of the loop ends.\<close>

datatype iteration = Return string | Throw js_error | Continue js_error

text \<open>
  The \<^verbatim>\<open>catch\<close> block of the loop body, for the error \<open>e\<close> caught at index \<open>i\<close> of \<open>n\<close>
  models: the outcome of the iteration and the events of the block.
  \<^verbatim>\<open>
  const statusCode = error.response?.status;
  const errorMessage = error.response?.data?.error?.message || error.message;
  lastError = error;
  if (statusCode === 429 || statusCode === 503 || statusCode === 500) {
    if (i < MODELS.length - 1) { await new Promise(resolve => setTimeout(resolve, 2000)); }
    continue;
  }
  if (statusCode === 400 || statusCode === 403 || statusCode === 401) {
    throw new Error(`Erro fatal na API do Gemini (${statusCode}): ${errorMessage}`);
  }
  if (i < MODELS.length - 1) {
    await new Promise(resolve => setTimeout(resolve, 2000));
    continue;
  }
  \<close>
\<close>

definition catch_block :: "nat \<Rightarrow> nat \<Rightarrow> js_error \<Rightarrow> iteration \<times> event list" where
  "catch_block n i e =
     (let statusCode = response_status e;
          errorMessage = or_else (response_message e) (message e)
      in if statusCode = Some 429 \<or> statusCode = Some 503 \<or> statusCode = Some 500 then
           (if int i < int n - 1 then (Continue e, [Wait 2000]) else (Continue e, []))
         else if statusCode = Some 400 \<or> statusCode = Some 403 \<or> statusCode = Some 401 then
           (Throw (new_Error (fatal_message (the statusCode) errorMessage)), [])
         else if int i < int n - 1 then (Continue e, [Wait 2000])
         else (Continue e, []))"

text \<open>
  The \<^verbatim>\<open>try\<close> block after the POST has settled.
  \<^verbatim>\<open>
  if (response.status === 200 && response.data.candidates?.length > 0) {
    return response.data.candidates[0].content.parts[0].text;
  }
  lastError = new Error(`Modelo ${model} nao retornou conteudo valido`);
  \<close>
  A rejected POST and a \<^verbatim>\<open>TypeError\<close> raised while reading the body both enter the
  \<^verbatim>\<open>catch\<close> block.
\<close>

definition try_block :: "nat \<Rightarrow> nat \<Rightarrow> string \<Rightarrow> response_data axios_result \<Rightarrow> iteration \<times> event list" where
  "try_block n i model r =
     (case r of
        Rejected e \<Rightarrow> catch_block n i e
      | Resolved st d \<Rightarrow>
          if st = 200 then
            (case d of
               No_data \<Rightarrow> catch_block n i type_error
             | Data None \<Rightarrow> (Continue (new_Error (no_content_message model)), [])
             | Data (Some cs) \<Rightarrow>
                 if length cs > 0 then
                   (case first_text cs of
                      Inl e \<Rightarrow> catch_block n i e
                    | Inr t \<Rightarrow> (Return t, []))
                 else (Continue (new_Error (no_content_message model)), []))
          else (Continue (new_Error (no_content_message model)), []))"

text \<open>One iteration: the POST for \<open>models ! i\<close>, then the \<^verbatim>\<open>try\<close> block.\<close>

definition attempt ::
  "('r, 'w) env \<Rightarrow> string list \<Rightarrow> string \<Rightarrow> nat \<Rightarrow> 'w \<Rightarrow> iteration \<times> event list \<times> 'w" where
  "attempt env models prompt i w =
     (let model = models ! i;
          (r, w') = axios_post_gemini env (gemini_url model (API_KEY env)) prompt w;
          (out, evs) = try_block (length models) i model r
      in (out, Backend_call model r # evs, w'))"

text \<open>
  \<^verbatim>\<open>for (let i = 0; i < MODELS.length; i++) { ... }\<close> followed by the final throw. The
  model list is a parameter; the source runs the loop on \<open>MODELS\<close>.
\<close>

function callGeminiAPI_loop ::
  "('r, 'w) env \<Rightarrow> string list \<Rightarrow> string \<Rightarrow> nat \<Rightarrow> js_error option \<Rightarrow> 'w
     \<Rightarrow> (js_error + string) \<times> event list \<times> 'w" where
  "callGeminiAPI_loop env models prompt i lastError w =
     (if i < length models then
        (case attempt env models prompt i w of
           (Return t, evs, w') \<Rightarrow> (Inr t, evs, w')
         | (Throw e, evs, w') \<Rightarrow> (Inl e, evs, w')
         | (Continue e, evs, w') \<Rightarrow>
             (case callGeminiAPI_loop env models prompt (Suc i) (Some e) w' of
                (res, evs', w'') \<Rightarrow> (res, evs @ evs', w'')))
      else (Inl (new_Error (all_failed_message (length models) lastError)), [], w))"
  by pat_completeness auto
termination
  by (relation "measure (\<lambda>(env, models, prompt, i, lastError, w). length models - i)") auto

definition callGeminiAPI ::
  "('r, 'w) env \<Rightarrow> string list \<Rightarrow> string \<Rightarrow> 'w \<Rightarrow> (js_error + string) \<times> event list \<times> 'w" where
  "callGeminiAPI env models prompt w = callGeminiAPI_loop env models prompt 0 None w"

section \<open>Cache service, client side (services/cache.ts)\<close>

text \<open>\<^verbatim>\<open>isoString.split('T')[0]\<close>: the calendar date of an ISO-8601 instant.\<close>

definition date_part :: "string \<Rightarrow> string" where
  "date_part isoString = takeWhile (\<lambda>c. c \<noteq> CHR ''T'') isoString"

text \<open>\<^verbatim>\<open>`analysis:${date}:${dataKey}`\<close> and \<^verbatim>\<open>`${cacheKey}:timestamp`\<close>\<close>

definition cacheKey :: "string \<Rightarrow> string \<Rightarrow> string" where
  "cacheKey dateStr dk = ''analysis:'' @ dateStr @ '':'' @ dk"

definition timestampKey :: "string \<Rightarrow> string" where
  "timestampKey key = key @ '':timestamp''"

text \<open>
  \<^verbatim>\<open>getCachedAnalysis\<close>. With \<open>CACHE_API_URL\<close> set, a GET of the endpoint: the body on
  success, \<^verbatim>\<open>null\<close> on 404, and any other rejection is rethrown into the outer
  \<^verbatim>\<open>catch\<close>, which also returns \<^verbatim>\<open>null\<close>. Otherwise two reads of the browser store.
\<close>

definition getCachedAnalysis ::
  "('r, 'w) env \<Rightarrow> string \<Rightarrow> 'w \<Rightarrow> cache_response option \<times> event list \<times> 'w" where
  "getCachedAnalysis env dk w =
     (if truthy (CACHE_API_URL env) then
        (case axios_get_cache env (the (CACHE_API_URL env)) dk w of
           (Resolved st d, w') \<Rightarrow> (d, [Api_get dk], w')
         | (Rejected e, w') \<Rightarrow>
             if response_status e = Some 404 then (None, [Api_get dk], w')
             else (None, [Api_get dk], w'))
      else
        let today = date_part (toISOString env (date_now env w));
            key = cacheKey today dk
        in case localStorage_getItem env key w of
             Inl e \<Rightarrow> (None, [Storage_getItem key], w)
           | Inr item \<Rightarrow>
               (case localStorage_getItem env (timestampKey key) w of
                  Inl e \<Rightarrow> (None, [Storage_getItem key, Storage_getItem (timestampKey key)], w)
                | Inr ts \<Rightarrow>
                    (if truthy item then
                       Some \<lparr>analysis = the item, cached = True,
                             timestamp = or_else ts (toISOString env (date_now env w))\<rparr>
                     else None,
                     [Storage_getItem key, Storage_getItem (timestampKey key)], w)))"

text \<open>
  \<^verbatim>\<open>setCachedAnalysis\<close>: a POST to the endpoint, or two writes to the browser store and
  the cleanup. The whole body is inside \<^verbatim>\<open>try { ... } catch (error) { console.error(...) }\<close>:
  a failed write ends the function normally.
\<close>

definition setCachedAnalysis ::
  "('r, 'w) env \<Rightarrow> string \<Rightarrow> string \<Rightarrow> 'w \<Rightarrow> event list \<times> 'w" where
  "setCachedAnalysis env dk text w =
     (let ts = toISOString env (date_now env w)
      in if truthy (CACHE_API_URL env) then
           (case axios_post_cache env (the (CACHE_API_URL env)) dk text w of
              (r, w') \<Rightarrow> ([Api_post dk text r], w'))
         else
           let today = date_part (toISOString env (date_now env w));
               key = cacheKey today dk
           in case localStorage_setItem env key text w of
                Inl e \<Rightarrow> ([Storage_setItem key text (Some e)], w)
              | Inr w1 \<Rightarrow>
                  (case localStorage_setItem env (timestampKey key) ts w1 of
                     Inl e \<Rightarrow>
                       ([Storage_setItem key text None,
                         Storage_setItem (timestampKey key) ts (Some e)], w1)
                   | Inr w2 \<Rightarrow>
                       ([Storage_setItem key text None,
                         Storage_setItem (timestampKey key) ts None, Storage_clean],
                        cleanOldCache env w2)))"

text \<open>
  The local branch of \<^verbatim>\<open>getAnalysisHistory\<close>:
  \<^verbatim>\<open>
  for (let i = 0; i < 30; i++) {
    const date = subDays(today, i);
    const dateStr = format(date, 'yyyy-MM-dd');
    const cacheKey = `analysis:${dateStr}:${dataKey}`;
    const cached = localStorage.getItem(cacheKey);
    const timestamp = localStorage.getItem(`${cacheKey}:timestamp`);
    if (cached) { history.push({ date: dateStr, analysis: cached,
                                 timestamp: timestamp || new Date(date).toISOString() }); }
  }
  \<close>
  The days are stepped and named in local time, by \<open>subDays\<close> and \<open>format_date\<close>.
  A read that throws leaves the loop; the caller's \<^verbatim>\<open>catch\<close> receives the error.
\<close>

function local_history_loop ::
  "('r, 'w) env \<Rightarrow> string \<Rightarrow> 'w \<Rightarrow> int \<Rightarrow> nat \<Rightarrow> history_entry list
     \<Rightarrow> js_error + history_entry list" where
  "local_history_loop env dk w today i history =
     (if i < 30 then
        let day = subDays env today i;
            dateStr = format_date env day;
            key = cacheKey dateStr dk
        in case localStorage_getItem env key w of
             Inl e \<Rightarrow> Inl e
           | Inr item \<Rightarrow>
               (case localStorage_getItem env (timestampKey key) w of
                  Inl e \<Rightarrow> Inl e
                | Inr ts \<Rightarrow>
                    local_history_loop env dk w today (Suc i)
                      (if truthy item then
                         history @ [\<lparr>h_date = dateStr, h_analysis = the item,
                                     h_timestamp = or_else ts (toISOString env day)\<rparr>]
                       else history))
      else Inr history)"
  by pat_completeness auto
termination
  by (relation "measure (\<lambda>(env, dk, w, today, i, history). 30 - i)") auto

text \<open>
  \<^verbatim>\<open>getAnalysisHistory\<close>: in production the list served by the endpoint, or the empty
  list when the request fails; locally the loop above, and the empty list when it throws.
\<close>

definition getAnalysisHistory ::
  "('r, 'w) env \<Rightarrow> string \<Rightarrow> 'w \<Rightarrow> history_entry list \<times> event list \<times> 'w" where
  "getAnalysisHistory env dk w =
     (if truthy (CACHE_API_URL env) then
        (case axios_get_history env (the (CACHE_API_URL env) @ ''/history'') dk w of
           (Resolved st d, w') \<Rightarrow> (d, [Api_history dk], w')
         | (Rejected e, w') \<Rightarrow> ([], [Api_history dk], w'))
      else
        (case local_history_loop env dk w (date_now env w) 0 [] of
           Inl e \<Rightarrow> ([], [], w)
         | Inr history \<Rightarrow> (history, [], w)))"

section \<open>Generation coordinator (gemini.ts, \<^verbatim>\<open>generateWeeklyAnalysis\<close>)\<close>

text \<open>\<^verbatim>\<open>'Nao ha dados disponiveis para analise desta semana.'\<close>, accents as UTF-8 bytes.\<close>

definition no_data_text :: string where
  "no_data_text =
     ''N'' @ [CHR 0xC3, CHR 0xA3] @ ''o h'' @ [CHR 0xC3, CHR 0xA1] @ '' dados dispon'' @
     [CHR 0xC3, CHR 0xAD] @ ''veis para an'' @ [CHR 0xC3, CHR 0xA1] @ ''lise desta semana.''"

text \<open>
  The outer \<^verbatim>\<open>catch\<close>: \<^verbatim>\<open>throw new Error(error.message || 'Erro ao gerar analise')\<close>.
\<close>

definition rethrow :: "js_error \<Rightarrow> js_error" where
  "rethrow e =
     new_Error (or_else (Some (message e)) (''Erro ao gerar an'' @ [CHR 0xC3, CHR 0xA1] @ ''lise''))"

text \<open>
  The rows of the week before the current one: between the smallest and the largest date
  of the current rows, each moved back seven days by \<open>subDays\<close>. Called on a non-empty
  list only.
\<close>

definition previousWeekData ::
  "(('n, 'a) campaign_row_scheme, 'w) env \<Rightarrow> ('n, 'a) campaign_row_scheme list
     \<Rightarrow> ('n, 'a) campaign_row_scheme list \<Rightarrow> ('n, 'a) campaign_row_scheme list" where
  "previousWeekData env currentWeekData allData =
     (let dates = map date currentWeekData;
          minDate = foldl min (hd dates) (tl dates);
          maxDate = foldl max (hd dates) (tl dates);
          previousWeekStart = subDays env minDate 7;
          previousWeekEnd = subDays env maxDate 7
      in filter (\<lambda>item. date item \<ge> previousWeekStart \<and> date item \<le> previousWeekEnd) allData)"

text \<open>
  \<^verbatim>\<open>generateWeeklyAnalysis(currentWeekData, allData, dataKey, forceRefresh)\<close>. The dynamic
  import of the cache module is taken to resolve. The result is the returned object or
  the error thrown, with the events of the run and the new world.
\<close>

definition generateWeeklyAnalysis ::
  "(('n, 'a) campaign_row_scheme, 'w) env \<Rightarrow> ('n, 'a) campaign_row_scheme list
     \<Rightarrow> ('n, 'a) campaign_row_scheme list \<Rightarrow> string \<Rightarrow> bool \<Rightarrow> 'w
     \<Rightarrow> (js_error + cache_response) \<times> event list \<times> 'w" where
  "generateWeeklyAnalysis env currentWeekData allData dk forceRefresh w =
     (if length currentWeekData = 0 then
        (Inr \<lparr>analysis = no_data_text, cached = False,
              timestamp = toISOString env (date_now env w)\<rparr>, [], w)
      else
        case (if \<not> forceRefresh then getCachedAnalysis env dk w else (None, [], w)) of
          (Some c, evs1, w1) \<Rightarrow> (Inr c, evs1, w1)
        | (None, evs1, w1) \<Rightarrow>
            let prev = previousWeekData env currentWeekData allData
            in case buildAnalysisPrompt env currentWeekData
                      (if length prev > 0 then Some prev else None) w1 of
                 (Inl e, w2) \<Rightarrow> (Inl (rethrow e), evs1 @ [Build_prompt], w2)
               | (Inr prompt, w2) \<Rightarrow>
                   (case callGeminiAPI env MODELS prompt w2 of
                      (Inl e, evs2, w3) \<Rightarrow> (Inl (rethrow e), evs1 @ Build_prompt # evs2, w3)
                    | (Inr text, evs2, w3) \<Rightarrow>
                        (case setCachedAnalysis env dk text w3 of
                           (evs3, w4) \<Rightarrow>
                             (Inr \<lparr>analysis = text, cached = False,
                                   timestamp = toISOString env (date_now env w4)\<rparr>,
                              evs1 @ Build_prompt # evs2 @ evs3, w4))))"

section \<open>Persistence endpoint (api/analysis.ts, \<^verbatim>\<open>handler\<close>)\<close>

text \<open>
  The Redis store: the value and the expiry (in seconds) under each key, the keys on
  which a command fails (the promise of \<^verbatim>\<open>redis.get\<close> or \<^verbatim>\<open>redis.set\<close> rejects), and
  the commands issued so far.
\<close>

datatype command = GET string | SET string string nat

record redis =
  entries :: "string \<Rightarrow> (string \<times> nat) option"
  failing :: "string \<Rightarrow> bool"
  commands :: "command list"

definition redis_error :: js_error where
  "redis_error = new_Error ''Connection is closed.''"

definition redis_get :: "string \<Rightarrow> redis \<Rightarrow> (js_error + string option) \<times> redis" where
  "redis_get key r =
     (if failing r key then Inl redis_error else Inr (map_option fst (entries r key)),
      r\<lparr>commands := commands r @ [GET key]\<rparr>)"

definition redis_set :: "string \<Rightarrow> string \<Rightarrow> nat \<Rightarrow> redis \<Rightarrow> (js_error + unit) \<times> redis" where
  "redis_set key v ex r =
     (if failing r key then (Inl redis_error, r\<lparr>commands := commands r @ [SET key v ex]\<rparr>)
      else (Inr (), r\<lparr>entries := (entries r)(key := Some (v, ex)),
                       commands := commands r @ [SET key v ex]\<rparr>))"

text \<open>The request, as far as the handler reads it, and the response it sends.\<close>

record req_body =
  body_dataKey :: "string option"
  body_analysis :: "string option"

record request =
  http_method :: string
  url :: "string option"
  query_dataKey :: "string option"
  query_date :: "string option"
  body :: "req_body option"

datatype json =
    No_body
  | Error_json string
  | History_json "history_entry list"
  | Hit_json string bool string
  | Miss_json bool string
  | Saved_json string bool string string
  | Failure_json string string

record response =
  status_code :: nat
  payload :: json

text \<open>The messages of the handler, accents as UTF-8 bytes.\<close>

definition msg_dataKey_required :: string where
  "msg_dataKey_required = ''dataKey '' @ [CHR 0xC3, CHR 0xA9] @ '' obrigat'' @ [CHR 0xC3, CHR 0xB3] @ ''rio''"

definition msg_not_found :: string where
  "msg_not_found =
     ''An'' @ [CHR 0xC3, CHR 0xA1] @ ''lise n'' @ [CHR 0xC3, CHR 0xA3] @ ''o encontrada no cache''"

definition msg_saved :: string where
  "msg_saved = ''An'' @ [CHR 0xC3, CHR 0xA1] @ ''lise salva no cache''"

definition msg_not_allowed :: string where
  "msg_not_allowed = ''M'' @ [CHR 0xC3, CHR 0xA9] @ ''todo n'' @ [CHR 0xC3, CHR 0xA3] @ ''o permitido''"

definition msg_failure :: string where
  "msg_failure = ''Erro ao processar requisi'' @ [CHR 0xC3, CHR 0xA7, CHR 0xC3, CHR 0xA3] @ ''o''"

text \<open>\<^verbatim>\<open>s.includes(sub)\<close>\<close>

primrec str_includes :: "string \<Rightarrow> string \<Rightarrow> bool" where
  "str_includes [] sub = (sub = [])"
| "str_includes (c # s) sub = (take (length sub) (c # s) = sub \<or> str_includes s sub)"

text \<open>
  The history scan of the handler:
  \<^verbatim>\<open>
  for (let i = 0; i < 30; i++) {
    const date = new Date(today);
    date.setDate(date.getDate() - i);
    const dateStr = date.toISOString().split('T')[0];
    const cacheKey = `analysis:${dateStr}:${dataKey}`;
    const cached = await redis.get(cacheKey);
    const timestamp = await redis.get(`${cacheKey}:timestamp`);
    if (cached) { history.push({ date: dateStr, analysis: cached,
                                 timestamp: timestamp || new Date(date).toISOString() }); }
  }
  \<close>
  \<open>daysBefore d n\<close> is the instant that \<^verbatim>\<open>d.setDate(d.getDate() - n)\<close> leaves in \<open>d\<close>: \<open>n\<close>
  calendar days before \<open>d\<close> in the server's local time zone. \<open>toISO\<close> is
  \<^verbatim>\<open>Date.prototype.toISOString\<close>. A rejected \<^verbatim>\<open>redis.get\<close> throws out of the loop, into the
  \<^verbatim>\<open>catch\<close> of the handler.
\<close>

function history_loop ::
  "(int \<Rightarrow> nat \<Rightarrow> int) \<Rightarrow> (int \<Rightarrow> string) \<Rightarrow> string \<Rightarrow> int \<Rightarrow> nat \<Rightarrow> history_entry list \<Rightarrow> redis
     \<Rightarrow> (js_error + history_entry list) \<times> redis" where
  "history_loop daysBefore toISO dk today i history r =
     (if i < 30 then
        let day = daysBefore today i;
            dateStr = date_part (toISO day);
            key = cacheKey dateStr dk
        in case redis_get key r of
             (Inl e, r1) \<Rightarrow> (Inl e, r1)
           | (Inr item, r1) \<Rightarrow>
               (case redis_get (timestampKey key) r1 of
                  (Inl e, r2) \<Rightarrow> (Inl e, r2)
                | (Inr ts, r2) \<Rightarrow>
                    history_loop daysBefore toISO dk today (Suc i)
                      (if truthy item then
                         history @ [\<lparr>h_date = dateStr, h_analysis = the item,
                                     h_timestamp = or_else ts (toISO day)\<rparr>]
                       else history) r2)
      else (Inr history, r))"
  by pat_completeness auto
termination
  by (relation "measure (\<lambda>(daysBefore, toISO, dk, today, i, history, r). 30 - i)") auto

text \<open>The \<^verbatim>\<open>catch\<close> of the handler: status 500 with the error's message.\<close>

definition failure :: "js_error \<Rightarrow> response" where
  "failure e = \<lparr>status_code = 500, payload = Failure_json msg_failure (message e)\<rparr>"

text \<open>
  The read branch, \<^verbatim>\<open>if (req.method === 'GET' || !analysis)\<close>: the entry under the key
  with its timestamp (or the current instant when the timestamp key is empty) and
  status 200, or status 404.
\<close>

definition read_entry :: "(int \<Rightarrow> string) \<Rightarrow> int \<Rightarrow> string \<Rightarrow> redis \<Rightarrow> response \<times> redis" where
  "read_entry toISO now key r =
     (case redis_get key r of
        (Inl e, r1) \<Rightarrow> (failure e, r1)
      | (Inr item, r1) \<Rightarrow>
          if truthy item then
            (case redis_get (timestampKey key) r1 of
               (Inl e, r2) \<Rightarrow> (failure e, r2)
             | (Inr ts, r2) \<Rightarrow>
                 (\<lparr>status_code = 200,
                   payload = Hit_json (the item) True (or_else ts (toISO now))\<rparr>, r2))
          else (\<lparr>status_code = 404, payload = Miss_json False msg_not_found\<rparr>, r1))"

text \<open>
  The write branch, \<^verbatim>\<open>if (req.method === 'POST' && analysis)\<close>: both keys are set with
  the expiry \<open>ex\<close> (2592000 seconds in the current handler, 86400 in the earlier ones).
\<close>

definition write_entry ::
  "(int \<Rightarrow> string) \<Rightarrow> int \<Rightarrow> nat \<Rightarrow> string \<Rightarrow> string \<Rightarrow> redis \<Rightarrow> response \<times> redis" where
  "write_entry toISO now ex key text r =
     (let ts = toISO now
      in case redis_set key text ex r of
           (Inl e, r1) \<Rightarrow> (failure e, r1)
         | (Inr _, r1) \<Rightarrow>
             (case redis_set (timestampKey key) ts ex r1 of
                (Inl e, r2) \<Rightarrow> (failure e, r2)
              | (Inr _, r2) \<Rightarrow>
                  (\<lparr>status_code = 200, payload = Saved_json text False ts msg_saved\<rparr>, r2)))"

text \<open>
  The current handler (api/analysis.ts). \<open>daysBefore\<close> and \<open>toISO\<close> are the two date
  operations of the runtime described above, and \<open>now\<close> is the instant at which the handler
  runs. Reading \<^verbatim>\<open>req.body.dataKey\<close> on a request
  without a body is a \<^verbatim>\<open>TypeError\<close>, caught like every other error.
\<close>

definition handler ::
  "(int \<Rightarrow> nat \<Rightarrow> int) \<Rightarrow> (int \<Rightarrow> string) \<Rightarrow> int \<Rightarrow> request \<Rightarrow> redis \<Rightarrow> response \<times> redis" where
  "handler daysBefore toISO now req r =
     (if http_method req = ''OPTIONS'' then (\<lparr>status_code = 200, payload = No_body\<rparr>, r)
      else if http_method req = ''GET'' \<and> (case url req of None \<Rightarrow> False | Some u \<Rightarrow> str_includes u ''/history'') then
        (if \<not> truthy (query_dataKey req) then
           (\<lparr>status_code = 400, payload = Error_json msg_dataKey_required\<rparr>, r)
         else
           case history_loop daysBefore toISO (the (query_dataKey req)) now 0 [] r of
             (Inl e, r') \<Rightarrow> (failure e, r')
           | (Inr history, r') \<Rightarrow> (\<lparr>status_code = 200, payload = History_json history\<rparr>, r'))
      else if http_method req \<noteq> ''GET'' \<and> body req = None then (failure type_error, r)
      else
        let dk = (if http_method req = ''GET'' then query_dataKey req else body_dataKey (the (body req)));
            text = (if http_method req = ''POST'' then body_analysis (the (body req)) else None);
            requestDate = (if http_method req = ''GET'' then query_date req else None)
        in if \<not> truthy dk then (\<lparr>status_code = 400, payload = Error_json msg_dataKey_required\<rparr>, r)
           else
             let targetDate = or_else requestDate (date_part (toISO now));
                 key = cacheKey targetDate (the dk)
             in if http_method req = ''GET'' \<or> \<not> truthy text then read_entry toISO now key r
                else if http_method req = ''POST'' \<and> truthy text then
                  write_entry toISO now 2592000 key (the text) r
                else (\<lparr>status_code = 405, payload = Error_json msg_not_allowed\<rparr>, r))"

text \<open>
  The earlier handler on Vercel KV (unnamed/part_000): no history, no date parameter,
  \<^verbatim>\<open>const { dataKey, analysis } = req.body\<close> for every method, expiry 86400 seconds.
\<close>

definition handler_kv :: "(int \<Rightarrow> string) \<Rightarrow> int \<Rightarrow> request \<Rightarrow> redis \<Rightarrow> response \<times> redis" where
  "handler_kv toISO now req r =
     (if http_method req = ''OPTIONS'' then (\<lparr>status_code = 200, payload = No_body\<rparr>, r)
      else if body req = None then (failure type_error, r)
      else
        let dk = body_dataKey (the (body req));
            text = body_analysis (the (body req))
        in if \<not> truthy dk then (\<lparr>status_code = 400, payload = Error_json msg_dataKey_required\<rparr>, r)
           else
             let today = date_part (toISO now);
                 key = cacheKey today (the dk)
             in if http_method req = ''GET'' \<or> \<not> truthy text then read_entry toISO now key r
                else if http_method req = ''POST'' \<and> truthy text then
                  write_entry toISO now 86400 key (the text) r
                else (\<lparr>status_code = 405, payload = Error_json msg_not_allowed\<rparr>, r))"

section \<open>The analysis component (AIAnalysis.tsx)\<close>

text \<open>
  The state of one mounted component that survives its renders: the two refs and the
  three state variables. Two counters are added to observe the component: \<open>started\<close>
  counts the calls of \<^verbatim>\<open>generateWeeklyAnalysis\<close> issued so far, \<open>in_flight\<close> those whose
  promise has not settled yet.
\<close>

record component =
  isGeneratingRef :: bool
  lastProcessedKeyRef :: "string option"
  analysis_state :: string
  loading :: bool
  error_state :: "string option"
  started :: nat
  in_flight :: nat

definition mounted :: component where
  "mounted = \<lparr>isGeneratingRef = False, lastProcessedKeyRef = None, analysis_state = [],
              loading = False, error_state = None, started = 0, in_flight = 0\<rparr>"

text \<open>
  \<^verbatim>\<open>generateAnalysis\<close> up to its \<^verbatim>\<open>await\<close>:
  \<^verbatim>\<open>
  if (isGeneratingRef.current) { return; }
  if (!dataKey) { return; }
  isGeneratingRef.current = true;
  setLoading(true);
  setError(null);
  try {
    const { analysis: result, cached, timestamp } = await generateWeeklyAnalysis(data, allData, dataKey);
  \<close>
\<close>

definition generateAnalysis_call :: "string option \<Rightarrow> component \<Rightarrow> component" where
  "generateAnalysis_call dk st =
     (if isGeneratingRef st then st
      else if \<not> truthy dk then st
      else st\<lparr>isGeneratingRef := True, loading := True, error_state := None,
              started := Suc (started st), in_flight := Suc (in_flight st)\<rparr>)"

text \<open>
  \<^verbatim>\<open>generateAnalysis\<close> from the moment the awaited promise settles:
  \<^verbatim>\<open>
    setAnalysis(result);
  } catch (err) {
    setError(err.message || 'Erro ao gerar analise. Tente novamente.');
  } finally {
    setLoading(false);
    isGeneratingRef.current = false;
  }
  \<close>
\<close>

definition msg_generation_failed :: string where
  "msg_generation_failed =
     ''Erro ao gerar an'' @ [CHR 0xC3, CHR 0xA1] @ ''lise. Tente novamente.''"

definition generateAnalysis_settle :: "js_error + cache_response \<Rightarrow> component \<Rightarrow> component" where
  "generateAnalysis_settle outcome st =
     (let st1 = (case outcome of
                   Inr res \<Rightarrow> st\<lparr>analysis_state := analysis res\<rparr>
                 | Inl err \<Rightarrow>
                     st\<lparr>error_state := Some (or_else (Some (message err)) msg_generation_failed)\<rparr>)
      in st1\<lparr>loading := False, isGeneratingRef := False, in_flight := in_flight st1 - 1\<rparr>)"

text \<open>
  The body of the effect, run after a render with the given props:
  \<^verbatim>\<open>
  if (periodFilter === '7days' && data.length > 0 && dataKey) {
    if (dataKey === lastProcessedKeyRef.current) { return; }
    if (isGeneratingRef.current) { return; }
    lastProcessedKeyRef.current = dataKey;
    generateAnalysis();
  } else {
    setAnalysis('');
    setError(null);
    lastProcessedKeyRef.current = null;
  }
  \<close>
\<close>

definition useEffect_body ::
  "'n number_system \<Rightarrow> period_filter \<Rightarrow> string option \<Rightarrow> ('n, 'a) campaign_row_scheme list
     \<Rightarrow> component \<Rightarrow> component" where
  "useEffect_body ns periodFilter selectedCampaign data st =
     (let dk = dataKey ns periodFilter selectedCampaign data
      in if periodFilter = Seven_days \<and> length data > 0 \<and> truthy dk then
           (if dk = lastProcessedKeyRef st then st
            else if isGeneratingRef st then st
            else generateAnalysis_call dk (st\<lparr>lastProcessedKeyRef := dk\<rparr>))
         else st\<lparr>analysis_state := [], error_state := None, lastProcessedKeyRef := None\<rparr>)"

text \<open>
  What can happen to a mounted component: the effect runs after a render, the button
  calls \<^verbatim>\<open>generateAnalysis\<close> with the props of the last render, or the pending promise
  settles with a result or an error. A promise can settle only while one is pending.
\<close>

datatype ('n, 'a) ui_event =
    Effect period_filter "string option" "('n, 'a) campaign_row_scheme list"
  | Click period_filter "string option" "('n, 'a) campaign_row_scheme list"
  | Settle "js_error + cache_response"

fun step :: "'n number_system \<Rightarrow> component \<Rightarrow> ('n, 'a) ui_event \<Rightarrow> component" where
  "step ns st (Effect periodFilter selectedCampaign data) =
     useEffect_body ns periodFilter selectedCampaign data st"
| "step ns st (Click periodFilter selectedCampaign data) =
     generateAnalysis_call (dataKey ns periodFilter selectedCampaign data) st"
| "step ns st (Settle outcome) =
     (if in_flight st = 0 then st else generateAnalysis_settle outcome st)"

definition run :: "'n number_system \<Rightarrow> ('n, 'a) ui_event list \<Rightarrow> component" where
  "run ns evs = foldl (step ns) mounted evs"

section \<open>Observations on a run\<close>

text \<open>The backend calls of a trace, in order, each with its outcome.\<close>

fun calls :: "event list \<Rightarrow> (string \<times> response_data axios_result) list" where
  "calls [] = []"
| "calls (Backend_call m r # tr) = (m, r) # calls tr"
| "calls (_ # tr) = calls tr"

text \<open>The events that follow the \<open>k\<close>-th backend call of a trace (counting from 0).\<close>

fun after_call :: "nat \<Rightarrow> event list \<Rightarrow> event list" where
  "after_call k [] = []"
| "after_call k (Backend_call m r # tr) = (case k of 0 \<Rightarrow> tr | Suc j \<Rightarrow> after_call j tr)"
| "after_call k (_ # tr) = after_call k tr"

text \<open>
  A successful attempt: status 200 and a first candidate whose text can be read. The
  value is that text.
\<close>

definition success_text :: "response_data axios_result \<Rightarrow> string option" where
  "success_text r =
     (case r of
        Resolved st (Data (Some cs)) \<Rightarrow>
          if st = 200 \<and> cs \<noteq> [] then (case first_text cs of Inr t \<Rightarrow> Some t | Inl _ \<Rightarrow> None)
          else None
      | _ \<Rightarrow> None)"

text \<open>The statuses on which the orchestrator gives up: 400, 401 and 403.\<close>

definition fatal_status :: "nat option \<Rightarrow> bool" where
  "fatal_status s = (s = Some 400 \<or> s = Some 401 \<or> s = Some 403)"

text \<open>
  The error an attempt raises, if any: the rejection of the request, or the
  \<^verbatim>\<open>TypeError\<close> of reading a malformed body with status 200.
\<close>

definition caught :: "response_data axios_result \<Rightarrow> js_error option" where
  "caught r =
     (case r of
        Rejected e \<Rightarrow> Some e
      | Resolved st No_data \<Rightarrow> if st = 200 then Some type_error else None
      | Resolved st (Data None) \<Rightarrow> None
      | Resolved st (Data (Some cs)) \<Rightarrow>
          if st = 200 \<and> cs \<noteq> [] then (case first_text cs of Inl e \<Rightarrow> Some e | Inr _ \<Rightarrow> None)
          else None)"

text \<open>A store write of the trace failed.\<close>

fun failed_write :: "event \<Rightarrow> bool" where
  "failed_write (Api_post _ _ (Rejected _)) = True"
| "failed_write (Storage_setItem _ _ (Some _)) = True"
| "failed_write _ = False"

text \<open>
  The window of a history scan run at instant \<open>now\<close>: the thirty instants that the scan
  computes, 0, 1, ..., 29 calendar days before \<open>now\<close>, in this order. \<open>stepBack\<close> is the
  operation that steps back (\<open>daysBefore\<close> on the server, \<open>subDays\<close> in the browser).
\<close>

definition window :: "(int \<Rightarrow> nat \<Rightarrow> int) \<Rightarrow> int \<Rightarrow> int list" where
  "window stepBack now = map (stepBack now) [0..<30]"

text \<open>
  The aggregate impression sum of a dataset: the impression counts of its rows, added by
  the runtime from the first row on, starting from zero.
\<close>

definition impression_sum :: "'n number_system \<Rightarrow> ('n, 'a) campaign_row_scheme list \<Rightarrow> 'n" where
  "impression_sum ns D = foldl (num_add ns) (num_zero ns) (map impressions D)"

text \<open>
  On the Redis store, for the day of an instant and a fingerprint: the key of the day,
  whether a lookup of the day errors, whether the day has an entry (a non-empty text), and
  the history row of the day.
\<close>

definition day_key :: "(int \<Rightarrow> string) \<Rightarrow> string \<Rightarrow> int \<Rightarrow> string" where
  "day_key toISO dk day = cacheKey (date_part (toISO day)) dk"

definition lookup_fails :: "(int \<Rightarrow> string) \<Rightarrow> string \<Rightarrow> redis \<Rightarrow> int \<Rightarrow> bool" where
  "lookup_fails toISO dk r day =
     (failing r (day_key toISO dk day) \<or> failing r (timestampKey (day_key toISO dk day)))"

definition day_hit :: "(int \<Rightarrow> string) \<Rightarrow> string \<Rightarrow> redis \<Rightarrow> int \<Rightarrow> bool" where
  "day_hit toISO dk r day = truthy (map_option fst (entries r (day_key toISO dk day)))"

definition day_entry :: "(int \<Rightarrow> string) \<Rightarrow> string \<Rightarrow> redis \<Rightarrow> int \<Rightarrow> history_entry" where
  "day_entry toISO dk r day =
     \<lparr>h_date = date_part (toISO day),
      h_analysis = the (map_option fst (entries r (day_key toISO dk day))),
      h_timestamp = or_else (map_option fst (entries r (timestampKey (day_key toISO dk day))))
                      (toISO day)\<rparr>"

text \<open>
  The same on the browser store of a world, where the key of a day carries the day's
  local name \<open>format_date\<close>.
\<close>

definition local_key :: "('r, 'w) env \<Rightarrow> string \<Rightarrow> int \<Rightarrow> string" where
  "local_key env dk day = cacheKey (format_date env day) dk"

definition local_fails :: "('r, 'w) env \<Rightarrow> 'w \<Rightarrow> string \<Rightarrow> int \<Rightarrow> bool" where
  "local_fails env w dk day =
     (isl (localStorage_getItem env (local_key env dk day) w) \<or>
      isl (localStorage_getItem env (timestampKey (local_key env dk day)) w))"

definition local_hit :: "('r, 'w) env \<Rightarrow> 'w \<Rightarrow> string \<Rightarrow> int \<Rightarrow> bool" where
  "local_hit env w dk day = truthy (projr (localStorage_getItem env (local_key env dk day) w))"

definition local_entry :: "('r, 'w) env \<Rightarrow> 'w \<Rightarrow> string \<Rightarrow> int \<Rightarrow> history_entry" where
  "local_entry env w dk day =
     \<lparr>h_date = format_date env day,
      h_analysis = the (projr (localStorage_getItem env (local_key env dk day) w)),
      h_timestamp =
        or_else (projr (localStorage_getItem env (timestampKey (local_key env dk day)) w))
          (toISOString env day)\<rparr>"

section \<open>Example worlds\<close>

text \<open>
  A number system for the examples: the integers with exact addition, printed in decimal
  with a leading minus sign when negative. JavaScript numbers behave like this on
  integers as long as every sum stays below \<open>2^53\<close> in magnitude.
\<close>

definition decimal :: "int \<Rightarrow> string" where
  "decimal i = (if i < 0 then CHR ''-'' # string_of_nat (nat (- i)) else string_of_nat (nat i))"

definition integers :: "int number_system" where
  "integers = \<lparr>num_zero = 0, num_add = (+), num_toString = decimal\<rparr>"

text \<open>
  Stepping back calendar days in a time zone without clock changes: a day is
  \<open>86400000\<close> ms.
\<close>

definition plain_days_before :: "int \<Rightarrow> nat \<Rightarrow> int" where
  "plain_days_before d n = d - int n * 86400000"

text \<open>Backend outcomes: a generated text, an empty success, and two rejections.\<close>

definition answer :: "string \<Rightarrow> response_data axios_result" where
  "answer t = Resolved 200 (Data (Some [Candidate (Some (Content (Some [Part t])))]))"

definition empty_answer :: "response_data axios_result" where
  "empty_answer = Resolved 200 (Data (Some []))"

definition quota_exceeded :: "response_data axios_result" where
  "quota_exceeded =
     Rejected (Js_error (Some 429) (Some ''Resource has been exhausted'')
                 ''Request failed with status code 429'')"

definition forbidden :: "response_data axios_result" where
  "forbidden =
     Rejected (Js_error (Some 403) (Some ''API key not valid'')
                 ''Request failed with status code 403'')"

text \<open>
  A production deployment whose persistence endpoint has nothing stored and rejects
  every write with status 500, and whose backends answer as the table says (a URL that
  is not in the table is unreachable). The world counts the requests sent.
\<close>

definition example_env ::
  "(string \<times> response_data axios_result) list \<Rightarrow> (int campaign_row, nat) env" where
  "example_env tbl =
     \<lparr>API_KEY = ''key'',
      CACHE_API_URL = Some ''/api/analysis'',
      axios_post_gemini = (\<lambda>u prompt w.
         (case map_of tbl u of Some r \<Rightarrow> r | None \<Rightarrow> Rejected (new_Error ''Network Error''),
          Suc w)),
      axios_get_cache = (\<lambda>u dk w.
         (Rejected (Js_error (Some 404) None ''Request failed with status code 404''), Suc w)),
      axios_post_cache = (\<lambda>u dk text w.
         (Rejected (Js_error (Some 500) None ''Request failed with status code 500''), Suc w)),
      axios_get_history = (\<lambda>u dk w. (Resolved 200 [], Suc w)),
      localStorage_getItem = (\<lambda>key w. Inr None),
      localStorage_setItem = (\<lambda>key v w. Inr w),
      cleanOldCache = (\<lambda>w. w),
      buildAnalysisPrompt = (\<lambda>cur prev w. (Inr ''prompt'', w)),
      date_now = (\<lambda>w. 1765152000000),
      toISOString = (\<lambda>t. ''2025-12-08T00:00:00.000Z''),
      subDays = plain_days_before,
      format_date = (\<lambda>t. ''2025-12-08'')\<rparr>"

text \<open>Two backends: the first is named in the table entry, the second answers.\<close>

definition two_backends :: "response_data axios_result \<Rightarrow> (int campaign_row, nat) env" where
  "two_backends first =
     example_env [(gemini_url ''A'' ''key'', first), (gemini_url ''B'' ''key'', answer ''text of B'')]"

text \<open>Three backends: out of quota, an empty success, an answer.\<close>

definition three_backends :: "(int campaign_row, nat) env" where
  "three_backends =
     example_env [(gemini_url ''A'' ''key'', quota_exceeded), (gemini_url ''B'' ''key'', empty_answer),
                  (gemini_url ''C'' ''key'', answer ''text of C'')]"

text \<open>The configured backends, the first out of quota, the second answering.\<close>

definition quota_then_answer :: "(int campaign_row, nat) env" where
  "quota_then_answer =
     example_env [(gemini_url (MODELS ! 0) ''key'', quota_exceeded),
                  (gemini_url (MODELS ! 1) ''key'', answer ''generated text'')]"

definition one_row :: "int campaign_row list" where
  "one_row = [\<lparr>date = 1765152000000, impressions = 1582340\<rparr>]"

text \<open>
  Three datasets of two rows: the first two differ row by row and have the same
  impression sum, the third has another sum.
\<close>

definition rows_a :: "int campaign_row list" where
  "rows_a = [\<lparr>date = 1765152000000, impressions = 5\<rparr>, \<lparr>date = 1765238400000, impressions = 7\<rparr>]"

definition rows_b :: "int campaign_row list" where
  "rows_b = [\<lparr>date = 1765152000000, impressions = 2\<rparr>, \<lparr>date = 1765238400000, impressions = 10\<rparr>]"

definition rows_c :: "int campaign_row list" where
  "rows_c = [\<lparr>date = 1765152000000, impressions = 5\<rparr>, \<lparr>date = 1765238400000, impressions = 8\<rparr>]"

text \<open>
  A second number system for the examples, which rounds as IEEE-754 doubles do on integers:
  a sum is rounded to the nearest integer that has a significand of 53 bits, ties going to
  the even significand. \<open>ulp m\<close> is the spacing of these integers at the magnitude \<open>m\<close>.
  The numbers are printed in decimal, as the runtime prints integers below \<open>10^21\<close> in
  magnitude.
\<close>

function ulp :: "nat \<Rightarrow> nat" where
  "ulp m = (if m < 9007199254740992 then 1 else 2 * ulp (m div 2))"
  by pat_completeness auto
termination
  by (relation "measure id") auto

definition round_magnitude :: "nat \<Rightarrow> nat" where
  "round_magnitude m =
     (if 2 * (m mod ulp m) < ulp m \<or> (2 * (m mod ulp m) = ulp m \<and> even (m div ulp m))
      then m div ulp m * ulp m
      else (m div ulp m + 1) * ulp m)"

definition round_to_double :: "int \<Rightarrow> int" where
  "round_to_double i =
     (if i < 0 then - int (round_magnitude (nat (- i))) else int (round_magnitude (nat i)))"

definition add_rounded :: "int \<Rightarrow> int \<Rightarrow> int" where
  "add_rounded a b = round_to_double (a + b)"

definition rounded_integers :: "int number_system" where
  "rounded_integers = \<lparr>num_zero = 0, num_add = add_rounded, num_toString = decimal\<rparr>"

text \<open>
  Two datasets of two rows whose exact sums differ by one, at \<open>2^53\<close>, where the runtime's
  addition absorbs the difference.
\<close>

definition big_rows_a :: "int campaign_row list" where
  "big_rows_a = [\<lparr>date = 1765152000000, impressions = 9007199254740992\<rparr>,
                 \<lparr>date = 1765238400000, impressions = 1\<rparr>]"

definition big_rows_b :: "int campaign_row list" where
  "big_rows_b = [\<lparr>date = 1765152000000, impressions = 9007199254740992\<rparr>,
                 \<lparr>date = 1765238400000, impressions = 0\<rparr>]"

text \<open>
  \<^verbatim>\<open>Date.prototype.toISOString\<close> in UTC for the years 0000 to 9999, used by the examples:
  the civil date of a day number, then the fields padded with zeros.
\<close>

definition pad2 :: "int \<Rightarrow> string" where
  "pad2 i = (if i < 10 then ''0'' else '''') @ string_of_nat (nat i)"

definition pad3 :: "int \<Rightarrow> string" where
  "pad3 i = (if i < 10 then ''00'' else if i < 100 then ''0'' else '''') @ string_of_nat (nat i)"

definition pad4 :: "int \<Rightarrow> string" where
  "pad4 i =
     (if i < 10 then ''000'' else if i < 100 then ''00'' else if i < 1000 then ''0'' else '''') @
     string_of_nat (nat i)"

definition day_of_era :: "int \<Rightarrow> int" where
  "day_of_era z = (z + 719468) mod 146097"

definition year_of_era :: "int \<Rightarrow> int" where
  "year_of_era doe = (doe - doe div 1460 + doe div 36524 - doe div 146096) div 365"

definition day_of_year :: "int \<Rightarrow> int" where
  "day_of_year doe =
     doe - (365 * year_of_era doe + year_of_era doe div 4 - year_of_era doe div 100)"

definition month_index :: "int \<Rightarrow> int" where
  "month_index doe = (5 * day_of_year doe + 2) div 153"

definition civil_day :: "int \<Rightarrow> int" where
  "civil_day z = day_of_year (day_of_era z) - (153 * month_index (day_of_era z) + 2) div 5 + 1"

definition civil_month :: "int \<Rightarrow> int" where
  "civil_month z =
     (if month_index (day_of_era z) < 10 then month_index (day_of_era z) + 3
      else month_index (day_of_era z) - 9)"

definition civil_year :: "int \<Rightarrow> int" where
  "civil_year z =
     year_of_era (day_of_era z) + (z + 719468) div 146097 * 400 +
     (if civil_month z \<le> 2 then 1 else 0)"

definition toISOString_utc :: "int \<Rightarrow> string" where
  "toISOString_utc t =
     pad4 (civil_year (t div 86400000)) @ ''-'' @ pad2 (civil_month (t div 86400000)) @ ''-'' @
     pad2 (civil_day (t div 86400000)) @ ''T'' @
     pad2 (t mod 86400000 div 3600000) @ '':'' @ pad2 (t mod 3600000 div 60000) @ '':'' @
     pad2 (t mod 60000 div 1000) @ ''.'' @ pad3 (t mod 1000) @ ''Z''"

text \<open>
  A store with an entry for 2025-12-08 and one for 2025-12-06 under the fingerprint
  \<open>all-245-1582340\<close> (the second without its timestamp key), on which no command fails;
  and the same store with the key of 2025-12-07 failing.
\<close>

definition example_store :: redis where
  "example_store =
     \<lparr>entries = [''analysis:2025-12-08:all-245-1582340'' \<mapsto> (''text of the 8th'', 2592000),
                 ''analysis:2025-12-08:all-245-1582340:timestamp'' \<mapsto> (''2025-12-08T09:30:00.000Z'', 2592000),
                 ''analysis:2025-12-06:all-245-1582340'' \<mapsto> (''text of the 6th'', 2592000)],
      failing = (\<lambda>key. False),
      commands = []\<rparr>"

definition broken_store :: redis where
  "broken_store = example_store\<lparr>failing := (\<lambda>key. key = ''analysis:2025-12-07:all-245-1582340'')\<rparr>"

text \<open>At 2025-12-08 10:00 UTC: a history request, and a POST without analysis text.\<close>

definition example_now :: int where
  "example_now = 1765188000000"

definition history_request :: request where
  "history_request =
     \<lparr>http_method = ''GET'', url = Some ''/api/analysis/history?dataKey=all-245-1582340'',
      query_dataKey = Some ''all-245-1582340'', query_date = None, body = None\<rparr>"

definition empty_post :: request where
  "empty_post =
     \<lparr>http_method = ''POST'', url = Some ''/api/analysis'', query_dataKey = None, query_date = None,
      body = Some \<lparr>body_dataKey = Some ''all-245-1582340'', body_analysis = Some []\<rparr>\<rparr>"

text \<open>A production deployment whose history endpoint answers 500.\<close>

definition failing_history_env :: "(int campaign_row, nat) env" where
  "failing_history_env =
     (example_env [])\<lparr>axios_get_history := (\<lambda>u dk w.
        (Rejected (Js_error (Some 500) None ''Request failed with status code 500''), Suc w))\<rparr>"

text \<open>
  A local deployment (no endpoint) in a browser three hours behind UTC, at 2025-12-08
  01:00 UTC, which is 22:00 of 2025-12-07 there. The browser store holds an entry written
  under the UTC date 2025-12-08 and an entry of 2025-12-06, and no read throws. In this
  browser \<^verbatim>\<open>format(d, 'yyyy-MM-dd')\<close> is the UTC date of the instant three hours before \<open>d\<close>.
\<close>

definition format_date_utc_minus_3 :: "int \<Rightarrow> string" where
  "format_date_utc_minus_3 t = date_part (toISOString_utc (t - 10800000))"

definition local_env :: "(int campaign_row, nat) env" where
  "local_env =
     \<lparr>API_KEY = ''key'',
      CACHE_API_URL = None,
      axios_post_gemini = (\<lambda>u prompt w. (Rejected (new_Error ''Network Error''), Suc w)),
      axios_get_cache = (\<lambda>u dk w. (Rejected (new_Error ''Network Error''), Suc w)),
      axios_post_cache = (\<lambda>u dk text w. (Rejected (new_Error ''Network Error''), Suc w)),
      axios_get_history = (\<lambda>u dk w. (Rejected (new_Error ''Network Error''), Suc w)),
      localStorage_getItem = (\<lambda>key w.
         Inr (if key = ''analysis:2025-12-08:all-245-1582340'' then Some ''text of the 8th''
              else if key = ''analysis:2025-12-06:all-245-1582340'' then Some ''text of the 6th''
              else None)),
      localStorage_setItem = (\<lambda>key v w. Inr w),
      cleanOldCache = (\<lambda>w. w),
      buildAnalysisPrompt = (\<lambda>cur prev w. (Inr ''prompt'', w)),
      date_now = (\<lambda>w. 1765155600000),
      toISOString = toISOString_utc,
      subDays = plain_days_before,
      format_date = format_date_utc_minus_3\<rparr>"

section \<open>The fallback orchestrator: one iteration\<close>

lemma catch_block_events: "catch_block n i e = (out, ws) \<Longrightarrow> ws = [] \<or> ws = [Wait 2000]"
  by (auto simp: catch_block_def Let_def split: if_splits)

lemma catch_block_not_Return: "catch_block n i e \<noteq> (Return t, ws)"
  by (auto simp: catch_block_def Let_def split: if_splits)

lemma try_block_events: "try_block n i m r = (out, ws) \<Longrightarrow> ws = [] \<or> ws = [Wait 2000]"
  by (auto simp: try_block_def split: axios_result.splits response_data.splits option.splits sum.splits if_splits
      dest: catch_block_events)

lemma try_block_success:
  "try_block n i m r = (out, ws) \<Longrightarrow> success_text r = Some t \<Longrightarrow> out = Return t \<and> ws = []"
  by (auto simp: try_block_def success_text_def
      split: axios_result.splits response_data.splits option.splits sum.splits if_splits)

lemma try_block_Return:
  "try_block n i m r = (Return t, ws) \<Longrightarrow> success_text r = Some t"
  by (auto simp: try_block_def success_text_def catch_block_not_Return
      split: axios_result.splits response_data.splits option.splits sum.splits if_splits)

lemma try_block_caught:
  "caught r = Some e \<Longrightarrow> try_block n i m r = catch_block n i e"
  by (auto simp: try_block_def caught_def
      split: axios_result.splits response_data.splits option.splits sum.splits if_splits)

lemma try_block_not_caught:
  "caught r = None \<Longrightarrow> success_text r = None \<Longrightarrow>
   try_block n i m r = (Continue (new_Error (no_content_message m)), [])"
  by (auto simp: try_block_def caught_def success_text_def
      split: axios_result.splits response_data.splits option.splits sum.splits if_splits)

lemma attempt_shape:
  "attempt env models prompt i w = (out, evs, w') \<Longrightarrow>
   \<exists>r ws. evs = Backend_call (models ! i) r # ws \<and> try_block (length models) i (models ! i) r = (out, ws)"
  by (auto simp: attempt_def Let_def split: prod.splits)

declare callGeminiAPI_loop.simps [simp del]

lemma calls_waits: "ws = [] \<or> ws = [Wait 2000] \<Longrightarrow> calls (ws @ tr) = calls tr"
  by auto

lemma loop_unfold_Continue:
  assumes "i < length models" "attempt env models prompt i w = (Continue e, evs, w1)"
    "callGeminiAPI_loop env models prompt i le w = (res, tr, w')"
  shows "\<exists>tr'. callGeminiAPI_loop env models prompt (Suc i) (Some e) w1 = (res, tr', w') \<and> tr = evs @ tr'"
  using assms by (subst (asm) callGeminiAPI_loop.simps) (auto split: prod.splits)

lemma loop_unfold_Return:
  assumes "i < length models" "attempt env models prompt i w = (Return t, evs, w1)"
    "callGeminiAPI_loop env models prompt i le w = (res, tr, w')"
  shows "res = Inr t \<and> tr = evs \<and> w' = w1"
  using assms by (subst (asm) callGeminiAPI_loop.simps) (auto split: prod.splits)

lemma loop_unfold_Throw:
  assumes "i < length models" "attempt env models prompt i w = (Throw e, evs, w1)"
    "callGeminiAPI_loop env models prompt i le w = (res, tr, w')"
  shows "res = Inl e \<and> tr = evs \<and> w' = w1"
  using assms by (subst (asm) callGeminiAPI_loop.simps) (auto split: prod.splits)

lemma loop_unfold_done:
  assumes "\<not> i < length models" "callGeminiAPI_loop env models prompt i le w = (res, tr, w')"
  shows "res = Inl (new_Error (all_failed_message (length models) le)) \<and> tr = [] \<and> w' = w"
  using assms by (subst (asm) callGeminiAPI_loop.simps) auto

lemma loop_calls_prefix:
  "callGeminiAPI_loop env models prompt i le w = (res, tr, w') \<Longrightarrow>
   map fst (calls tr) = take (length (calls tr)) (drop i models)"
proof (induction env models prompt i le w arbitrary: res tr w' rule: callGeminiAPI_loop.induct)
  case (1 env models prompt i lastError w)
  show ?case
  proof (cases "i < length models")
    case False
    with "1.prems" show ?thesis by (auto dest: loop_unfold_done)
  next
    case True
    obtain out evs w1 where a: "attempt env models prompt i w = (out, evs, w1)"
      by (metis prod_cases3)
    from attempt_shape [OF a] obtain r ws where
      evs: "evs = Backend_call (models ! i) r # ws" and tb: "try_block (length models) i (models ! i) r = (out, ws)"
      by blast
    from try_block_events [OF tb] have ws: "ws = [] \<or> ws = [Wait 2000]" .
    have d: "drop i models = models ! i # drop (Suc i) models"
      using True by (simp add: Cons_nth_drop_Suc)
    show ?thesis
    proof (cases out)
      case (Return t)
      with loop_unfold_Return [OF True _ "1.prems"] a have "tr = evs" by simp
      with evs ws d show ?thesis by auto
    next
      case (Throw e)
      with loop_unfold_Throw [OF True _ "1.prems"] a have "tr = evs" by simp
      with evs ws d show ?thesis by auto
    next
      case (Continue e)
      with loop_unfold_Continue [OF True _ "1.prems"] a obtain tr' where
        r: "callGeminiAPI_loop env models prompt (Suc i) (Some e) w1 = (res, tr', w')" and tr: "tr = evs @ tr'"
        by blast
      from "1.IH" [OF True a [symmetric] _ _ r] Continue
      have ih: "map fst (calls tr') = take (length (calls tr')) (drop (Suc i) models)" by simp
      have "calls tr = (models ! i, r) # calls tr'"
        using tr evs ws by auto
      with ih d show ?thesis by simp
    qed
  qed
qed


lemma loop_step:
  assumes "i < length models" "callGeminiAPI_loop env models prompt i le w = (res, tr, w')"
  obtains (Return) r t where "success_text r = Some t" "res = Inr t" "tr = [Backend_call (models ! i) r]"
  | (Throw) r e ws where "try_block (length models) i (models ! i) r = (Throw e, ws)" "res = Inl e"
      "tr = Backend_call (models ! i) r # ws"
  | (Continue) r e ws w1 tr' where "try_block (length models) i (models ! i) r = (Continue e, ws)"
      "callGeminiAPI_loop env models prompt (Suc i) (Some e) w1 = (res, tr', w')"
      "tr = Backend_call (models ! i) r # ws @ tr'"
proof -
  obtain out evs w1 where a: "attempt env models prompt i w = (out, evs, w1)"
    by (metis prod_cases3)
  from attempt_shape [OF a] obtain r ws where
    evs: "evs = Backend_call (models ! i) r # ws" and tb: "try_block (length models) i (models ! i) r = (out, ws)"
    by blast
  show thesis
  proof (cases out)
    case (Return t)
    with tb have "success_text r = Some t" by (auto dest: try_block_Return)
    moreover from this tb have "ws = []" by (auto dest: try_block_success)
    moreover from loop_unfold_Return [OF assms(1) _ assms(2)] a Return have "res = Inr t" "tr = evs" by simp_all
    ultimately show ?thesis using evs by (intro that(1)) simp_all
  next
    case (Throw e)
    from loop_unfold_Throw [OF assms(1) _ assms(2)] a Throw have "res = Inl e" "tr = evs" by simp_all
    with tb Throw evs show ?thesis by (intro that(2)) simp_all
  next
    case (Continue e)
    with loop_unfold_Continue [OF assms(1) _ assms(2)] a obtain tr' where
      "callGeminiAPI_loop env models prompt (Suc i) (Some e) w1 = (res, tr', w')" "tr = evs @ tr'"
      by blast
    with tb Continue evs show ?thesis by (intro that(3)) simp_all
  qed
qed

lemma calls_after_attempt:
  "try_block n i m r = (out, ws) \<Longrightarrow> calls (Backend_call m r # ws @ tr) = (m, r) # calls tr"
  by (auto dest: try_block_events)

lemma calls_attempt_only:
  "try_block n i m r = (out, ws) \<Longrightarrow> calls (Backend_call m r # ws) = [(m, r)]"
  by (auto dest: try_block_events)

lemma loop_success:
  "callGeminiAPI_loop env models prompt i le w = (res, tr, w') \<Longrightarrow>
   k < length (calls tr) \<Longrightarrow> success_text (snd (calls tr ! k)) = Some t \<Longrightarrow>
   res = Inr t \<and> length (calls tr) = Suc k \<and> last tr = Backend_call (models ! (i + k)) (snd (calls tr ! k))"
proof (induction k arbitrary: i le w tr)
  case 0
  have il: "i < length models" using 0 by (cases "i < length models") (auto dest: loop_unfold_done)
  from il "0.prems"(1) show ?case
  proof (cases rule: loop_step)
    case (Return r t')
    with 0 show ?thesis by simp
  next
    case (Throw r e ws)
    with 0 calls_attempt_only [OF Throw(1)] show ?thesis by (auto dest: try_block_success)
  next
    case (Continue r e ws w1 tr')
    with 0 calls_after_attempt [OF Continue(1)] show ?thesis by (auto dest: try_block_success)
  qed
next
  case (Suc k)
  have il: "i < length models" using Suc.prems by (cases "i < length models") (auto dest: loop_unfold_done)
  from il Suc.prems(1) show ?case
  proof (cases rule: loop_step)
    case (Return r t')
    with Suc.prems show ?thesis by simp
  next
    case (Throw r e ws)
    then have "calls tr = [(models ! i, r)]" using calls_attempt_only [OF Throw(1)] by simp
    with Suc.prems show ?thesis by simp
  next
    case (Continue r e ws w1 tr')
    have c: "calls tr = (models ! i, r) # calls tr'"
      using calls_after_attempt [OF Continue(1)] Continue(3) by simp
    with Suc.prems have k: "k < length (calls tr')" and s: "success_text (snd (calls tr' ! k)) = Some t"
      by simp_all
    from Suc.IH [OF Continue(2) k s]
    have ih: "res = Inr t" "length (calls tr') = Suc k"
      "last tr' = Backend_call (models ! (Suc i + k)) (snd (calls tr' ! k))" by simp_all
    have "tr' \<noteq> []" using k by auto
    then have "last tr = last tr'" using Continue(3) by simp
    with ih c show ?thesis by simp
  qed
qed

lemma try_block_fatal:
  "try_block n i m (Rejected e) = (out, ws) \<Longrightarrow> fatal_status (response_status e) \<Longrightarrow>
   out = Throw (new_Error (fatal_message (the (response_status e)) (or_else (response_message e) (message e)))) \<and> ws = []"
  by (auto simp: try_block_def catch_block_def fatal_status_def Let_def)

lemma loop_fatal:
  "callGeminiAPI_loop env models prompt i le w = (res, tr, w') \<Longrightarrow>
   k < length (calls tr) \<Longrightarrow> snd (calls tr ! k) = Rejected e \<Longrightarrow> fatal_status (response_status e) \<Longrightarrow>
   res = Inl (new_Error (fatal_message (the (response_status e)) (or_else (response_message e) (message e))))
   \<and> length (calls tr) = Suc k \<and> last tr = Backend_call (models ! (i + k)) (Rejected e)"
proof (induction k arbitrary: i le w tr)
  case 0
  have il: "i < length models" using 0 by (cases "i < length models") (auto dest: loop_unfold_done)
  from il "0.prems"(1) show ?case
  proof (cases rule: loop_step)
    case (Return r t')
    with 0 show ?thesis by (simp add: success_text_def)
  next
    case (Throw r e' ws)
    with 0 calls_attempt_only [OF Throw(1)] show ?thesis by (auto dest: try_block_fatal)
  next
    case (Continue r e' ws w1 tr')
    with 0 calls_after_attempt [OF Continue(1)] show ?thesis by (auto dest: try_block_fatal)
  qed
next
  case (Suc k)
  have il: "i < length models" using Suc.prems by (cases "i < length models") (auto dest: loop_unfold_done)
  from il Suc.prems(1) show ?case
  proof (cases rule: loop_step)
    case (Return r t')
    with Suc.prems show ?thesis by simp
  next
    case (Throw r e' ws)
    then have "calls tr = [(models ! i, r)]" using calls_attempt_only [OF Throw(1)] by simp
    with Suc.prems show ?thesis by simp
  next
    case (Continue r e' ws w1 tr')
    have c: "calls tr = (models ! i, r) # calls tr'"
      using calls_after_attempt [OF Continue(1)] Continue(3) by simp
    with Suc.prems have k: "k < length (calls tr')" and s: "snd (calls tr' ! k) = Rejected e"
      by simp_all
    from Suc.IH [OF Continue(2) k s Suc.prems(4)]
    have ih: "res = Inl (new_Error (fatal_message (the (response_status e)) (or_else (response_message e) (message e))))"
      "length (calls tr') = Suc k"
      "last tr' = Backend_call (models ! (Suc i + k)) (Rejected e)" by simp_all
    have "tr' \<noteq> []" using k by auto
    then have "last tr = last tr'" using Continue(3) by simp
    with ih c show ?thesis by simp
  qed
qed


lemma catch_block_backoff:
  "\<not> fatal_status (response_status e) \<Longrightarrow> Suc i < n \<Longrightarrow> catch_block n i e = (Continue e, [Wait 2000])"
  by (auto simp: catch_block_def fatal_status_def Let_def)

lemma after_call_attempt:
  "try_block n i m r = (out, ws) \<Longrightarrow> after_call (Suc k) (Backend_call m r # ws @ tr) = after_call k tr"
  by (auto dest: try_block_events)

lemma loop_first_call:
  assumes "i < length models" "callGeminiAPI_loop env models prompt i le w = (res, tr, w')"
  shows "\<exists>r tr'. tr = Backend_call (models ! i) r # tr'"
  using assms by (cases rule: loop_step) auto

lemma loop_backoff:
  "callGeminiAPI_loop env models prompt i le w = (res, tr, w') \<Longrightarrow>
   k < length (calls tr) \<Longrightarrow> Suc (i + k) < length models \<Longrightarrow>
   (\<forall>e. caught (snd (calls tr ! k)) = Some e \<and> \<not> fatal_status (response_status e) \<longrightarrow>
      Suc k < length (calls tr) \<and>
      (\<exists>r. take 2 (after_call k tr) = [Wait 2000, Backend_call (models ! Suc (i + k)) r])) \<and>
   (caught (snd (calls tr ! k)) = None \<and> success_text (snd (calls tr ! k)) = None \<longrightarrow>
      Suc k < length (calls tr) \<and>
      (\<exists>r. take 1 (after_call k tr) = [Backend_call (models ! Suc (i + k)) r]))"
proof (induction k arbitrary: i le w tr)
  case 0
  have il: "i < length models" using 0 by simp
  from il "0.prems"(1) show ?case
  proof (cases rule: loop_step)
    case (Return r t')
    then have "caught r = None" by (auto simp: caught_def success_text_def split: axios_result.splits response_data.splits option.splits sum.splits if_splits)
    with Return show ?thesis by simp
  next
    case (Throw r e ws)
    have c: "calls tr = [(models ! i, r)]" using calls_attempt_only [OF Throw(1)] Throw(3) by simp
    have "\<And>e'. caught r = Some e' \<Longrightarrow> \<not> fatal_status (response_status e') \<Longrightarrow> False"
      using Throw(1) "0.prems"(3) by (simp add: try_block_caught catch_block_backoff)
    moreover have "caught r = None \<Longrightarrow> success_text r = None \<Longrightarrow> False"
      using Throw(1) by (simp add: try_block_not_caught)
    ultimately show ?thesis using c by auto
  next
    case (Continue r e ws w1 tr')
    have c: "calls tr = (models ! i, r) # calls tr'"
      using calls_after_attempt [OF Continue(1)] Continue(3) by simp
    from loop_first_call [OF _ Continue(2)] "0.prems"(3) obtain r' tr'' where
      tr': "tr' = Backend_call (models ! Suc i) r' # tr''" by auto
    have a: "after_call 0 tr = ws @ tr'" using Continue(3) by simp
    have "\<And>e'. caught r = Some e' \<Longrightarrow> \<not> fatal_status (response_status e') \<Longrightarrow> ws = [Wait 2000]"
      using Continue(1) "0.prems"(3) by (simp add: try_block_caught catch_block_backoff)
    moreover have "caught r = None \<Longrightarrow> success_text r = None \<Longrightarrow> ws = []"
      using Continue(1) by (simp add: try_block_not_caught)
    ultimately show ?thesis using c a tr' by auto
  qed
next
  case (Suc k)
  have il: "i < length models" using Suc.prems by simp
  from il Suc.prems(1) show ?case
  proof (cases rule: loop_step)
    case (Return r t')
    with Suc.prems show ?thesis by simp
  next
    case (Throw r e ws)
    then have "calls tr = [(models ! i, r)]" using calls_attempt_only [OF Throw(1)] by simp
    with Suc.prems show ?thesis by simp
  next
    case (Continue r e ws w1 tr')
    have c: "calls tr = (models ! i, r) # calls tr'"
      using calls_after_attempt [OF Continue(1)] Continue(3) by simp
    have a: "after_call (Suc k) tr = after_call k tr'"
      using after_call_attempt [OF Continue(1)] Continue(3) by simp
    from c Suc.prems have k: "k < length (calls tr')" and l: "Suc (Suc i + k) < length models"
      by simp_all
    from Suc.IH [OF Continue(2) k l] c a show ?thesis by simp
  qed
qed

section \<open>The fallback orchestrator: claims\<close>



text \<open>
  Claim C3. In every run of the orchestrator, if the attempt at position \<open>i\<close> is rejected
  with status 400, 401 or 403, the run throws the fatal error built from that status and
  the error's message, that call is the last event of the run, and exactly the backends
  at positions \<open>0..i\<close> were called: no backend after \<open>i\<close> is invoked, whatever it would
  have answered.
\<close>

theorem fatal_failure_aborts:
  assumes "callGeminiAPI env models prompt w = (res, tr, w')"
    and "i < length (calls tr)"
    and "snd (calls tr ! i) = Rejected e"
    and "fatal_status (response_status e)"
  shows "res = Inl (new_Error (fatal_message (the (response_status e))
                      (or_else (response_message e) (message e)))) \<and>
         map fst (calls tr) = take (Suc i) models \<and>
         last tr = Backend_call (models ! i) (Rejected e)"
proof -
  from assms(1) have run: "callGeminiAPI_loop env models prompt 0 None w = (res, tr, w')"
    by (simp add: callGeminiAPI_def)
  from loop_fatal [OF run assms(2-4)]
  have f: "res = Inl (new_Error (fatal_message (the (response_status e))
                      (or_else (response_message e) (message e))))"
    "length (calls tr) = Suc i" "last tr = Backend_call (models ! i) (Rejected e)"
    by simp_all
  from loop_calls_prefix [OF run] f(2) have "map fst (calls tr) = take (Suc i) models"
    by simp
  with f show ?thesis by simp
qed

theorem fatal_failure_aborts_witness:
  "callGeminiAPI (two_backends forbidden) [''A'', ''B''] ''p'' 0 =
     (Inl (new_Error ''Erro fatal na API do Gemini (403): API key not valid''),
      [Backend_call ''A'' forbidden], 1)
   \<and> map fst (calls [Backend_call ''A'' forbidden]) = take 1 [''A'', ''B'']
   \<and> success_text (fst (axios_post_gemini (two_backends forbidden) (gemini_url ''B'' ''key'') ''p'' 1))
       = Some ''text of B''"
proof -
  let ?e = "Js_error (Some 403) (Some ''API key not valid'') ''Request failed with status code 403''"
  have run: "callGeminiAPI (two_backends forbidden) [''A'', ''B''] ''p'' 0 =
     (Inl (new_Error ''Erro fatal na API do Gemini (403): API key not valid''),
      [Backend_call ''A'' forbidden], 1)"
    by code_simp
  have i: "0 < length (calls [Backend_call ''A'' forbidden])" by simp
  have r: "snd (calls [Backend_call ''A'' forbidden] ! 0) = Rejected ?e"
    by (simp add: forbidden_def)
  have f: "fatal_status (response_status ?e)" by (simp add: fatal_status_def)
  from fatal_failure_aborts [OF run i r f]
  have "map fst (calls [Backend_call ''A'' forbidden]) = take (Suc 0) [''A'', ''B'']" by blast
  moreover have "success_text (fst (axios_post_gemini (two_backends forbidden)
      (gemini_url ''B'' ''key'') ''p'' 1)) = Some ''text of B''"
    by code_simp
  ultimately show ?thesis using run by simp
qed

text \<open>
  Claim C8, as the code has it. In every run of the orchestrator, an attempt that raises
  an error (a rejected request, or a status-200 body that cannot be read) other than one
  with status 400, 401 or 403, and that is not the last candidate, is followed by a wait
  of 2000 ms and then by the call of the next backend. An attempt that resolves without
  candidates (or with a status other than 200) and is not the last candidate is followed
  by the call of the next backend directly, with no wait.
\<close>

theorem backoff_after_error:
  assumes "callGeminiAPI env models prompt w = (res, tr, w')"
  shows "(k < length (calls tr) \<and> Suc k < length models \<and>
          caught (snd (calls tr ! k)) = Some e \<and> \<not> fatal_status (response_status e) \<longrightarrow>
            (\<exists>r. take 2 (after_call k tr) = [Wait 2000, Backend_call (models ! Suc k) r])) \<and>
         (j < length (calls tr) \<and> Suc j < length models \<and>
          caught (snd (calls tr ! j)) = None \<and> success_text (snd (calls tr ! j)) = None \<longrightarrow>
            (\<exists>r. take 1 (after_call j tr) = [Backend_call (models ! Suc j) r]))"
proof -
  from assms have run: "callGeminiAPI_loop env models prompt 0 None w = (res, tr, w')"
    by (simp add: callGeminiAPI_def)
  have "\<exists>r. take 2 (after_call k tr) = [Wait 2000, Backend_call (models ! Suc k) r]"
    if "k < length (calls tr)" "Suc k < length models"
      "caught (snd (calls tr ! k)) = Some e" "\<not> fatal_status (response_status e)"
    using loop_backoff [OF run that(1)] that by simp
  moreover have "\<exists>r. take 1 (after_call j tr) = [Backend_call (models ! Suc j) r]"
    if "j < length (calls tr)" "Suc j < length models"
      "caught (snd (calls tr ! j)) = None" "success_text (snd (calls tr ! j)) = None"
    using loop_backoff [OF run that(1)] that by simp
  ultimately show ?thesis by blast
qed

theorem backoff_after_error_witness:
  "callGeminiAPI three_backends [''A'', ''B'', ''C''] ''p'' 0 =
     (Inr ''text of C'',
      [Backend_call ''A'' quota_exceeded, Wait 2000, Backend_call ''B'' empty_answer,
       Backend_call ''C'' (answer ''text of C'')], 3)
   \<and> (\<exists>r. take 2 (after_call 0 [Backend_call ''A'' quota_exceeded, Wait 2000,
          Backend_call ''B'' empty_answer, Backend_call ''C'' (answer ''text of C'')])
        = [Wait 2000, Backend_call ''B'' r])
   \<and> (\<exists>r. take 1 (after_call 1 [Backend_call ''A'' quota_exceeded, Wait 2000,
          Backend_call ''B'' empty_answer, Backend_call ''C'' (answer ''text of C'')])
        = [Backend_call ''C'' r])"
proof -
  let ?tr = "[Backend_call ''A'' quota_exceeded, Wait 2000, Backend_call ''B'' empty_answer,
       Backend_call ''C'' (answer ''text of C'')]"
  let ?e = "Js_error (Some 429) (Some ''Resource has been exhausted'')
              ''Request failed with status code 429''"
  have run: "callGeminiAPI three_backends [''A'', ''B'', ''C''] ''p'' 0 = (Inr ''text of C'', ?tr, 3)"
    by code_simp
  have a: "0 < length (calls ?tr) \<and> Suc 0 < length [''A'', ''B'', ''C''] \<and>
      caught (snd (calls ?tr ! 0)) = Some ?e \<and> \<not> fatal_status (response_status ?e)"
    by (simp add: caught_def quota_exceeded_def fatal_status_def)
  have b: "1 < length (calls ?tr) \<and> Suc 1 < length [''A'', ''B'', ''C''] \<and>
      caught (snd (calls ?tr ! 1)) = None \<and> success_text (snd (calls ?tr ! 1)) = None"
    by (simp add: caught_def success_text_def empty_answer_def)
  from backoff_after_error [OF run, of 0 ?e 1] a b
  have "(\<exists>r. take 2 (after_call 0 ?tr) = [Wait 2000, Backend_call ([''A'', ''B'', ''C''] ! Suc 0) r]) \<and>
        (\<exists>r. take 1 (after_call 1 ?tr) = [Backend_call ([''A'', ''B'', ''C''] ! Suc 1) r])"
    by blast
  then have "(\<exists>r. take 2 (after_call 0 ?tr) = [Wait 2000, Backend_call ''B'' r]) \<and>
        (\<exists>r. take 1 (after_call 1 ?tr) = [Backend_call ''C'' r])"
    by simp
  with run show ?thesis by blast
qed

text \<open>
  Claim C8 as stated fails: with two backends, the first answers 200 with an empty
  candidate list and is not the last candidate, and the second backend is called next
  with no wait in between.
\<close>

theorem backoff_counterexample:
  "fst (snd (callGeminiAPI (two_backends empty_answer) [''A'', ''B''] ''p'' 0)) =
     [Backend_call ''A'' empty_answer, Backend_call ''B'' (answer ''text of B'')]"
  by code_simp

section \<open>Decimal printing\<close>

declare string_of_nat.simps [simp del]

lemma digit_char_cases:
  "d < 10 \<Longrightarrow> d = 0 \<or> d = 1 \<or> d = 2 \<or> d = 3 \<or> d = 4 \<or> d = 5 \<or> d = 6 \<or> d = 7 \<or> d = 8 \<or> d = (9::nat)"
  by arith

lemma digit_char_in: "d < 10 \<Longrightarrow> digit_char d \<in> set ''0123456789''"
  unfolding digit_char_def by (rule nth_mem) simp

lemma digit_char_inj: "a < 10 \<Longrightarrow> b < 10 \<Longrightarrow> digit_char a = digit_char b \<Longrightarrow> a = b"
proof -
  assume a: "a < 10" and b: "b < 10" and e: "digit_char a = digit_char b"
  have d: "distinct ''0123456789''" by simp
  have "''0123456789'' ! a = ''0123456789'' ! b" using e by (simp only: digit_char_def)
  moreover have "a < length ''0123456789''" "b < length ''0123456789''" using a b by simp_all
  ultimately show "a = b" using d nth_eq_iff_index_eq by blast
qed

lemma string_of_nat_digits: "set (string_of_nat n) \<subseteq> set ''0123456789''"
proof (induction n rule: string_of_nat.induct)
  case (1 n)
  show ?case
  proof (cases "n < 10")
    case True
    then show ?thesis using digit_char_in [of n] by (subst string_of_nat.simps) simp
  next
    case False
    have "n mod 10 < 10" by simp
    then have "digit_char (n mod 10) \<in> set ''0123456789''" by (rule digit_char_in)
    with False 1 show ?thesis by (subst string_of_nat.simps) simp
  qed
qed

lemma string_of_nat_nonempty: "string_of_nat n \<noteq> []"
  by (subst string_of_nat.simps) simp

lemma string_of_nat_inj: "string_of_nat n = string_of_nat m \<Longrightarrow> n = m"
proof (induction n arbitrary: m rule: string_of_nat.induct)
  case (1 n)
  show ?case
  proof (cases "n < 10")
    case True
    then have n: "string_of_nat n = [digit_char n]" by (subst string_of_nat.simps) simp
    show ?thesis
    proof (cases "m < 10")
      case True
      then have "string_of_nat m = [digit_char m]" by (subst string_of_nat.simps) simp
      with n "1.prems" have "digit_char n = digit_char m" by simp
      with \<open>n < 10\<close> True show ?thesis by (rule digit_char_inj)
    next
      case False
      then have "string_of_nat m = string_of_nat (m div 10) @ [digit_char (m mod 10)]"
        by (subst string_of_nat.simps) simp
      with n "1.prems" have "string_of_nat (m div 10) = []" by simp
      then show ?thesis using string_of_nat_nonempty by blast
    qed
  next
    case False
    then have n: "string_of_nat n = string_of_nat (n div 10) @ [digit_char (n mod 10)]"
      by (subst string_of_nat.simps) simp
    show ?thesis
    proof (cases "m < 10")
      case True
      then have "string_of_nat m = [digit_char m]" by (subst string_of_nat.simps) simp
      with n "1.prems" have "string_of_nat (n div 10) = []" by simp
      then show ?thesis using string_of_nat_nonempty by blast
    next
      case m: False
      then have "string_of_nat m = string_of_nat (m div 10) @ [digit_char (m mod 10)]"
        by (subst string_of_nat.simps) simp
      with n "1.prems" have e: "string_of_nat (n div 10) = string_of_nat (m div 10)"
        and d: "digit_char (n mod 10) = digit_char (m mod 10)" by simp_all
      from "1.IH" [OF False e] have q: "n div 10 = m div 10" .
      have "n mod 10 = m mod 10" using d by (intro digit_char_inj) simp_all
      with q show ?thesis by (metis div_mult_mod_eq)
    qed
  qed
qed

lemma decimal_inj: "decimal i = decimal j \<Longrightarrow> i = j"
proof -
  assume e: "decimal i = decimal j"
  have nd: "\<And>n. hd (string_of_nat n) \<noteq> CHR ''-''"
  proof -
    fix n
    have "hd (string_of_nat n) \<in> set (string_of_nat n)" using string_of_nat_nonempty by simp
    then have "hd (string_of_nat n) \<in> set ''0123456789''" using string_of_nat_digits by blast
    then show "hd (string_of_nat n) \<noteq> CHR ''-''" by auto
  qed
  show "i = j"
  proof (cases "i < 0"; cases "j < 0")
    assume "i < 0" "j < 0"
    with e have "nat (- i) = nat (- j)" by (simp add: decimal_def string_of_nat_inj)
    with \<open>i < 0\<close> \<open>j < 0\<close> show ?thesis by simp
  next
    assume "i < 0" "\<not> j < 0"
    with e have "CHR ''-'' # string_of_nat (nat (- i)) = string_of_nat (nat j)" by (simp add: decimal_def)
    then have "hd (string_of_nat (nat j)) = CHR ''-''" by (metis list.sel(1))
    with nd show ?thesis by blast
  next
    assume "\<not> i < 0" "j < 0"
    with e have "CHR ''-'' # string_of_nat (nat (- j)) = string_of_nat (nat i)" by (simp add: decimal_def)
    then have "hd (string_of_nat (nat i)) = CHR ''-''" by (metis list.sel(1))
    with nd show ?thesis by blast
  next
    assume "\<not> i < 0" "\<not> j < 0"
    with e have "nat i = nat j" by (simp add: decimal_def string_of_nat_inj)
    with \<open>\<not> i < 0\<close> \<open>\<not> j < 0\<close> show ?thesis by simp
  qed
qed

lemma split_at_separator:
  "c \<notin> set xs \<Longrightarrow> c \<notin> set xs' \<Longrightarrow> xs @ c # ys = xs' @ c # ys' \<Longrightarrow> xs = xs' \<and> ys = ys'"
proof (induction xs arbitrary: xs')
  case Nil
  then show ?case by (cases xs') auto
next
  case (Cons x xs)
  then show ?case by (cases xs') auto
qed

lemma dash_not_digit: "CHR ''-'' \<notin> set (string_of_nat n)"
  using string_of_nat_digits [of n] by auto

lemma colon_not_digit: "CHR '':'' \<notin> set (string_of_nat n)"
  using string_of_nat_digits [of n] by auto

lemma colon_not_in_decimal: "CHR '':'' \<notin> set (decimal i)"
  by (simp add: decimal_def colon_not_digit)

lemma inj_decimal: "inj decimal"
  by (rule injI) (rule decimal_inj)

section \<open>Fingerprint derivation: claims\<close>

lemma totalImpressions_sum: "totalImpressions ns D = impression_sum ns D"
  by (simp add: totalImpressions_def impression_sum_def foldl_map)

lemma dataKey_empty: "dataKey ns p c [] = None"
  by (simp add: dataKey_def)

lemma dataKey_nonempty:
  "D \<noteq> [] \<Longrightarrow> dataKey ns Seven_days c D =
     Some (or_else c ''all'' @ CHR ''-'' # string_of_nat (length D) @
           CHR ''-'' # num_toString ns (impression_sum ns D))"
  by (simp add: dataKey_def totalImpressions_sum)

lemma key_parts_eq:
  "string_of_nat n1 @ CHR ''-'' # s1 = string_of_nat n2 @ CHR ''-'' # s2 \<longleftrightarrow> n1 = n2 \<and> s1 = s2"
proof
  assume "string_of_nat n1 @ CHR ''-'' # s1 = string_of_nat n2 @ CHR ''-'' # s2"
  from split_at_separator [OF dash_not_digit dash_not_digit this]
  have "string_of_nat n1 = string_of_nat n2" "s1 = s2" by simp_all
  then show "n1 = n2 \<and> s1 = s2" by (simp add: string_of_nat_inj)
next
  assume "n1 = n2 \<and> s1 = s2"
  then show "string_of_nat n1 @ CHR ''-'' # s1 = string_of_nat n2 @ CHR ''-'' # s2"
    by simp
qed

lemma dataKey_eq_iff:
  fixes D1 D2 :: "('n, 'a) campaign_row_scheme list"
  shows "dataKey ns Seven_days c D1 = dataKey ns Seven_days c D2 \<longleftrightarrow>
   length D1 = length D2 \<and>
   (D1 = [] \<or> num_toString ns (impression_sum ns D1) = num_toString ns (impression_sum ns D2))"
proof (cases "D1 = []")
  case True
  show ?thesis
  proof (cases "D2 = []")
    case e: True
    with True show ?thesis by simp
  next
    case False
    with True show ?thesis by (simp add: dataKey_empty dataKey_nonempty)
  qed
next
  case False
  show ?thesis
  proof (cases "D2 = []")
    case True
    with False show ?thesis by (simp add: dataKey_empty dataKey_nonempty)
  next
    case ne: False
    show ?thesis
      by (simp only: dataKey_nonempty [OF False] dataKey_nonempty [OF ne] option.inject
          same_append_eq list.inject simp_thms key_parts_eq False)
  qed
qed

declare ulp.simps [simp del]

lemma ulp_small: "m < 9007199254740992 \<Longrightarrow> ulp m = 1"
  by (subst ulp.simps) simp

lemma ulp_large: "\<not> m < 9007199254740992 \<Longrightarrow> ulp m = 2 * ulp (m div 2)"
  by (subst ulp.simps) simp

lemmas rounded_eval = impression_sum_def rounded_integers_def add_rounded_def round_to_double_def
  round_magnitude_def ulp_small ulp_large

lemma big_rows_sums:
  "impression_sum rounded_integers big_rows_a = 9007199254740992"
  "impression_sum rounded_integers big_rows_b = 9007199254740992"
  by (simp_all add: big_rows_a_def big_rows_b_def rounded_eval)

lemma big_rows_key:
  "dataKey rounded_integers Seven_days None big_rows_a = Some ''all-2-9007199254740992''"
  by (simp add: dataKey_def totalImpressions_def big_rows_a_def rounded_integers_def
      add_rounded_def round_to_double_def round_magnitude_def ulp_small ulp_large decimal_def
      digit_char_def or_else_def string_of_nat.simps)

text \<open>
  Claim C5. The aggregate impression sum of a dataset is the number that the runtime
  gets by adding the impression counts of all rows, from the first row on, starting from
  zero (\<open>impression_sum\<close>); the runtime's numbers, their addition and their rendering are
  arbitrary. The fingerprint is a function of the selected campaign, the record count and
  this sum: two datasets under the same period filter and the same selected campaign with
  equal record count and equal impression sum have the same fingerprint, whatever their
  rows. With the seven-day filter active (the only one under which a fingerprint is
  derived), two datasets under the same selected campaign have the same fingerprint
  exactly when their record counts are equal and their impression sums are rendered
  alike. So a change of the record count always changes the fingerprint, and, the
  runtime rendering distinct sums differently (as \<^verbatim>\<open>Number::toString\<close> does), so does a
  change of the impression sum.
\<close>

theorem fingerprint_count_and_sum:
  fixes ns :: "'n number_system"
    and D1 D2 D3 D4 D5 D6 :: "('n, 'a) campaign_row_scheme list"
  shows "(length D1 = length D2 \<and> impression_sum ns D1 = impression_sum ns D2 \<longrightarrow>
            dataKey ns p c D1 = dataKey ns p c D2) \<and>
         (dataKey ns Seven_days c D3 = dataKey ns Seven_days c D4 \<longleftrightarrow>
            length D3 = length D4 \<and>
            (D3 = [] \<or>
             num_toString ns (impression_sum ns D3) = num_toString ns (impression_sum ns D4))) \<and>
         (inj_on (num_toString ns)
            (range (impression_sum ns :: ('n, 'a) campaign_row_scheme list \<Rightarrow> 'n)) \<and>
          (length D5 \<noteq> length D6 \<or> impression_sum ns D5 \<noteq> impression_sum ns D6) \<longrightarrow>
            dataKey ns Seven_days c D5 \<noteq> dataKey ns Seven_days c D6)"
proof (intro conjI impI)
  assume "length D1 = length D2 \<and> impression_sum ns D1 = impression_sum ns D2"
  then show "dataKey ns p c D1 = dataKey ns p c D2"
    by (simp add: dataKey_def totalImpressions_sum)
next
  show "dataKey ns Seven_days c D3 = dataKey ns Seven_days c D4 \<longleftrightarrow>
            length D3 = length D4 \<and>
            (D3 = [] \<or>
             num_toString ns (impression_sum ns D3) = num_toString ns (impression_sum ns D4))"
    by (rule dataKey_eq_iff)
next
  assume a: "inj_on (num_toString ns)
            (range (impression_sum ns :: ('n, 'a) campaign_row_scheme list \<Rightarrow> 'n)) \<and>
          (length D5 \<noteq> length D6 \<or> impression_sum ns D5 \<noteq> impression_sum ns D6)"
  show "dataKey ns Seven_days c D5 \<noteq> dataKey ns Seven_days c D6"
  proof
    assume "dataKey ns Seven_days c D5 = dataKey ns Seven_days c D6"
    then have l: "length D5 = length D6"
      and r: "D5 = [] \<or>
        num_toString ns (impression_sum ns D5) = num_toString ns (impression_sum ns D6)"
      by (simp_all add: dataKey_eq_iff)
    have "impression_sum ns D5 = impression_sum ns D6"
    proof (cases "D5 = []")
      case True
      with l show ?thesis by simp
    next
      case False
      with r have e: "num_toString ns (impression_sum ns D5) = num_toString ns (impression_sum ns D6)"
        by simp
      from a have i: "inj_on (num_toString ns)
            (range (impression_sum ns :: ('n, 'a) campaign_row_scheme list \<Rightarrow> 'n))"
        by simp
      from inj_onD [OF i e] show ?thesis by simp
    qed
    with a l show False by simp
  qed
qed

text \<open>
  With exact integers: two datasets that differ row by row and have the sum 12 share a
  fingerprint, and a dataset with the sum 13 has another one. With sums rounded as doubles
  round them: the rows \<open>2^53, 1\<close> and the rows \<open>2^53, 0\<close> have the same runtime sum \<open>2^53\<close>, hence
  one fingerprint.
\<close>

theorem fingerprint_count_and_sum_witness:
  "rows_a \<noteq> rows_b \<and>
   impression_sum integers rows_a = 12 \<and> impression_sum integers rows_b = 12 \<and>
   impression_sum integers rows_c = 13 \<and>
   dataKey integers Seven_days None rows_a = dataKey integers Seven_days None rows_b \<and>
   dataKey integers Seven_days None rows_a \<noteq> dataKey integers Seven_days None rows_c \<and>
   big_rows_a \<noteq> big_rows_b \<and>
   impression_sum rounded_integers big_rows_a = 9007199254740992 \<and>
   impression_sum rounded_integers big_rows_b = 9007199254740992 \<and>
   dataKey rounded_integers Seven_days None big_rows_a = Some ''all-2-9007199254740992'' \<and>
   dataKey rounded_integers Seven_days None big_rows_b = Some ''all-2-9007199254740992''"
proof -
  have s: "impression_sum integers rows_a = 12" "impression_sum integers rows_b = 12"
    "impression_sum integers rows_c = 13"
    by (simp_all add: rows_a_def rows_b_def rows_c_def impression_sum_def integers_def)
  have ab: "length rows_a = length rows_b \<and>
      impression_sum integers rows_a = impression_sum integers rows_b"
    by (simp add: s) (simp add: rows_a_def rows_b_def)
  have i: "inj_on (num_toString integers)
      (range (impression_sum integers :: int campaign_row list \<Rightarrow> int))"
    using inj_decimal by (simp add: integers_def inj_on_def inj_def)
  have ac: "length rows_a \<noteq> length rows_c \<or>
      impression_sum integers rows_a \<noteq> impression_sum integers rows_c"
    by (simp add: s)
  have ne: "rows_a \<noteq> rows_b" by (simp add: rows_a_def rows_b_def)
  from fingerprint_count_and_sum [of rows_a rows_b integers Seven_days None rows_a rows_a
      rows_a rows_c] ab i ac ne s
  have exact: "rows_a \<noteq> rows_b \<and>
     impression_sum integers rows_a = 12 \<and> impression_sum integers rows_b = 12 \<and>
     impression_sum integers rows_c = 13 \<and>
     dataKey integers Seven_days None rows_a = dataKey integers Seven_days None rows_b \<and>
     dataKey integers Seven_days None rows_a \<noteq> dataKey integers Seven_days None rows_c"
    by blast
  have big: "length big_rows_a = length big_rows_b \<and>
      impression_sum rounded_integers big_rows_a = impression_sum rounded_integers big_rows_b"
    by (simp add: big_rows_sums) (simp add: big_rows_a_def big_rows_b_def)
  have bne: "big_rows_a \<noteq> big_rows_b" by (simp add: big_rows_a_def big_rows_b_def)
  from fingerprint_count_and_sum [of big_rows_a big_rows_b rounded_integers Seven_days None
      big_rows_a big_rows_a big_rows_a big_rows_a] big
  have "dataKey rounded_integers Seven_days None big_rows_a =
      dataKey rounded_integers Seven_days None big_rows_b"
    by blast
  with big_rows_key have "dataKey rounded_integers Seven_days None big_rows_b =
      Some ''all-2-9007199254740992''"
    by simp
  with exact bne big_rows_sums big_rows_key show ?thesis by blast
qed

text \<open>
  Claim C9, as the code has it. The selected campaign name is copied into the
  fingerprint unchanged, so a derived fingerprint contains the delimiter \<open>:\<close> exactly when
  the selected campaign name does (the runtime's rendering of a number contains no \<open>:\<close>).
  With no campaign selected, or a name free of \<open>:\<close>, the fingerprint is free of \<open>:\<close>.
\<close>

theorem fingerprint_colon:
  assumes "dataKey ns p c D = Some k"
    and "\<And>x. CHR '':'' \<notin> set (num_toString ns x)"
  shows "CHR '':'' \<in> set k \<longleftrightarrow> (\<exists>s. c = Some s \<and> CHR '':'' \<in> set s)"
  using assms
  by (auto simp: dataKey_def or_else_def colon_not_digit Let_def split: if_splits option.splits)

lemma one_row_key: "dataKey integers Seven_days None one_row = Some ''all-1-1582340''"
  by (simp add: dataKey_def one_row_def totalImpressions_def integers_def decimal_def
      digit_char_def or_else_def string_of_nat.simps)

theorem fingerprint_colon_witness:
  "dataKey integers Seven_days None one_row = Some ''all-1-1582340'' \<and>
   CHR '':'' \<notin> set ''all-1-1582340''"
proof -
  have c: "CHR '':'' \<notin> set (num_toString integers x)" for x
    by (simp add: integers_def colon_not_in_decimal)
  from fingerprint_colon [OF one_row_key c] have "CHR '':'' \<notin> set ''all-1-1582340''" by blast
  with one_row_key show ?thesis by blast
qed

text \<open>
  Claim C9 as stated fails: with the campaign named \<open>BRB: Cartoes\<close> selected, the
  fingerprint contains the delimiter.
\<close>

theorem fingerprint_colon_counterexample:
  "dataKey integers Seven_days (Some ''BRB: Cartoes'') one_row = Some ''BRB: Cartoes-1-1582340'' \<and>
   CHR '':'' \<in> set ''BRB: Cartoes-1-1582340''"
  by (simp add: dataKey_def one_row_def totalImpressions_def integers_def decimal_def
      digit_char_def or_else_def string_of_nat.simps)

section \<open>Generation coordinator: claims\<close>

lemma calls_append: "calls (a @ b) = calls a @ calls b"
  by (induction a rule: calls.induct) simp_all

lemma getCachedAnalysis_calls: "getCachedAnalysis env dk w = (c, evs, w') \<Longrightarrow> calls evs = []"
  by (auto simp: getCachedAnalysis_def Let_def split: if_splits prod.splits axios_result.splits sum.splits)

lemma setCachedAnalysis_calls: "setCachedAnalysis env dk t w = (evs, w') \<Longrightarrow> calls evs = []"
  by (auto simp: setCachedAnalysis_def Let_def split: if_splits prod.splits sum.splits)

lemma lookup_calls:
  "(if \<not> forceRefresh then getCachedAnalysis env dk w else (None, [], w)) = (c, evs, w') \<Longrightarrow> calls evs = []"
  by (auto split: if_splits dest: getCachedAnalysis_calls)

lemma callGeminiAPI_success:
  assumes "callGeminiAPI env models prompt w = (res, tr, w')"
    and "(m, r) \<in> set (calls tr)" "success_text r = Some t"
  shows "res = Inr t"
proof -
  from assms(2) obtain k where k: "k < length (calls tr)" "calls tr ! k = (m, r)"
    by (auto simp: in_set_conv_nth)
  from assms(1) have run: "callGeminiAPI_loop env models prompt 0 None w = (res, tr, w')"
    by (simp add: callGeminiAPI_def)
  from loop_success [OF run k(1), of t] k(2) assms(3) show ?thesis by simp
qed


text \<open>
  Claim C4. With an empty list of current rows, for every other argument and every
  world, \<open>generateWeeklyAnalysis\<close> returns the fixed no-data text with \<open>cached = False\<close>;
  the run has no event at all (no store read, no store write, no backend call) and
  leaves the world as it was.
\<close>

theorem no_data_short_circuit:
  "generateWeeklyAnalysis env [] allData dk forceRefresh w =
     (Inr \<lparr>analysis = no_data_text, cached = False,
           timestamp = toISOString env (date_now env w)\<rparr>, [], w)"
  by (simp add: generateWeeklyAnalysis_def)

text \<open>
  Claim C7. In every run of \<open>generateWeeklyAnalysis\<close> in which a backend call succeeds
  with text \<open>t\<close> and a store write fails (the POST to the endpoint is rejected, or
  \<^verbatim>\<open>localStorage.setItem\<close> throws), the run still returns \<open>t\<close> with \<open>cached = False\<close>: it
  does not throw, and the generated text is not lost.
\<close>

theorem write_failure_keeps_text:
  assumes run: "generateWeeklyAnalysis env currentWeekData allData dk forceRefresh w = (res, tr, w')"
    and call: "(m, r) \<in> set (calls tr)"
    and ok: "success_text r = Some t"
    and fail: "list_ex failed_write tr"
  shows "res = Inr \<lparr>analysis = t, cached = False, timestamp = toISOString env (date_now env w')\<rparr>"
proof -
  have ne: "length currentWeekData \<noteq> 0"
    using run call by (auto simp: generateWeeklyAnalysis_def)
  obtain c evs1 w1 where
    l: "(if \<not> forceRefresh then getCachedAnalysis env dk w else (None, [], w)) = (c, evs1, w1)"
    by (metis prod_cases3)
  have c1: "calls evs1 = []" using l by (rule lookup_calls)
  show ?thesis
  proof (cases c)
    case (Some hit)
    with run ne l have "tr = evs1" by (simp add: generateWeeklyAnalysis_def)
    with c1 call show ?thesis by simp
  next
    case None
    let ?prev = "previousWeekData env currentWeekData allData"
    obtain p w2 where
      b: "buildAnalysisPrompt env currentWeekData (if length ?prev > 0 then Some ?prev else None) w1 = (p, w2)"
      by (metis prod.exhaust)
    show ?thesis
    proof (cases p)
      case (Inl e)
      with run ne l None b have "tr = evs1 @ [Build_prompt]"
        by (simp add: generateWeeklyAnalysis_def Let_def)
      with c1 call show ?thesis by (simp add: calls_append)
    next
      case (Inr prompt)
      obtain res2 evs2 w3 where g: "callGeminiAPI env MODELS prompt w2 = (res2, evs2, w3)"
        by (metis prod_cases3)
      show ?thesis
      proof (cases res2)
        case (Inl e)
        with run ne l None b Inr g have "tr = evs1 @ Build_prompt # evs2"
          by (simp add: generateWeeklyAnalysis_def Let_def)
        with c1 call have "(m, r) \<in> set (calls evs2)" by (simp add: calls_append)
        from callGeminiAPI_success [OF g this ok] Inl show ?thesis by simp
      next
        case gen: (Inr t')
        obtain evs3 w4 where s: "setCachedAnalysis env dk t' w3 = (evs3, w4)"
          by (metis prod.exhaust)
        from run ne l None b Inr g gen s
        have r: "res = Inr \<lparr>analysis = t', cached = False, timestamp = toISOString env (date_now env w4)\<rparr>"
          "tr = evs1 @ Build_prompt # evs2 @ evs3" "w' = w4"
          by (auto simp: generateWeeklyAnalysis_def Let_def)
        have "calls evs3 = []" using s by (rule setCachedAnalysis_calls)
        with r(2) c1 call have "(m, r) \<in> set (calls evs2)" by (simp add: calls_append)
        from callGeminiAPI_success [OF g this ok] gen have "t' = t" by simp
        with r show ?thesis by simp
      qed
    qed
  qed
qed

theorem write_failure_keeps_text_witness:
  "generateWeeklyAnalysis quota_then_answer one_row [] ''all-1-1582340'' False 0 =
     (Inr \<lparr>analysis = ''generated text'', cached = False, timestamp = ''2025-12-08T00:00:00.000Z''\<rparr>,
      [Api_get ''all-1-1582340'', Build_prompt,
       Backend_call ''gemini-robotics-er-1.5-preview'' quota_exceeded, Wait 2000,
       Backend_call ''gemini-2.5-flash-lite'' (answer ''generated text''),
       Api_post ''all-1-1582340'' ''generated text''
         (Rejected (Js_error (Some 500) None ''Request failed with status code 500''))], 4)"
proof -
  let ?tr = "[Api_get ''all-1-1582340'', Build_prompt,
       Backend_call ''gemini-robotics-er-1.5-preview'' quota_exceeded, Wait 2000,
       Backend_call ''gemini-2.5-flash-lite'' (answer ''generated text''),
       Api_post ''all-1-1582340'' ''generated text''
         (Rejected (Js_error (Some 500) None ''Request failed with status code 500''))]"
  have run: "generateWeeklyAnalysis quota_then_answer one_row [] ''all-1-1582340'' False 0 =
     (Inr \<lparr>analysis = ''generated text'', cached = False, timestamp = ''2025-12-08T00:00:00.000Z''\<rparr>,
      ?tr, 4)"
    by code_simp
  have c: "(''gemini-2.5-flash-lite'', answer ''generated text'') \<in> set (calls ?tr)" by simp
  have s: "success_text (answer ''generated text'') = Some ''generated text''" by code_simp
  have f: "list_ex failed_write ?tr" by simp
  from write_failure_keeps_text [OF run c s f]
  have "toISOString quota_then_answer (date_now quota_then_answer 4) = ''2025-12-08T00:00:00.000Z''"
    by simp
  with run show ?thesis by simp
qed

section \<open>Evaluating dates and keys\<close>

lemma string_of_nat_small: "n < 10 \<Longrightarrow> string_of_nat n = [digit_char n]"
  by (subst string_of_nat.simps) simp

lemma string_of_nat_large:
  "\<not> n < 10 \<Longrightarrow> string_of_nat n = string_of_nat (n div 10) @ [digit_char (n mod 10)]"
  by (subst string_of_nat.simps) simp

lemmas iso_eval = toISOString_utc_def civil_year_def civil_month_def civil_day_def month_index_def
  day_of_year_def year_of_era_def day_of_era_def pad2_def pad3_def pad4_def string_of_nat_small string_of_nat_large
  digit_char_def date_part_def cacheKey_def timestampKey_def plain_days_before_def day_key_def local_key_def
  format_date_utc_minus_3_def


section \<open>History scan: claims\<close>

declare history_loop.simps [simp del] local_history_loop.simps [simp del]

lemma lookup_fails_commands [simp]:
  "lookup_fails toISO dk (r\<lparr>commands := c\<rparr>) = lookup_fails toISO dk r"
  by (rule ext) (simp add: lookup_fails_def)

lemma day_hit_commands [simp]:
  "day_hit toISO dk (r\<lparr>commands := c\<rparr>) = day_hit toISO dk r"
  by (rule ext) (simp add: day_hit_def)

lemma day_entry_commands [simp]:
  "day_entry toISO dk (r\<lparr>commands := c\<rparr>) = day_entry toISO dk r"
  by (rule ext) (simp add: day_entry_def)

lemma history_loop_step:
  assumes "i < 30"
  shows "fst (history_loop stepBack toISO dk today i h r) =
     (if lookup_fails toISO dk r (stepBack today i) then Inl redis_error
      else fst (history_loop stepBack toISO dk today (Suc i)
             (if day_hit toISO dk r (stepBack today i) then h @ [day_entry toISO dk r (stepBack today i)] else h)
             (r\<lparr>commands := commands r @ [GET (day_key toISO dk (stepBack today i)),
                                            GET (timestampKey (day_key toISO dk (stepBack today i)))]\<rparr>)))"
  using assms
  by (subst history_loop.simps)
     (simp add: Let_def redis_get_def lookup_fails_def day_hit_def day_entry_def day_key_def)

lemma history_loop_result:
  "i \<le> 30 \<Longrightarrow> fst (history_loop stepBack toISO dk today i h r) =
     (if list_ex (lookup_fails toISO dk r) (map (stepBack today) [i..<30]) then Inl redis_error
      else Inr (h @ map (day_entry toISO dk r) (filter (day_hit toISO dk r) (map (stepBack today) [i..<30]))))"
proof (induction "30 - i" arbitrary: i h r)
  case 0
  then have "i = 30" by simp
  then show ?case by (subst history_loop.simps) simp
next
  case (Suc n)
  then have i: "i < 30" and n: "n = 30 - Suc i" and le: "Suc i \<le> 30" by simp_all
  have u: "[i..<30] = i # [Suc i..<30]" using i by (simp add: upt_conv_Cons)
  show ?case
    unfolding history_loop_step [OF i] Suc.hyps(1) [OF n le] u
    by simp
qed


lemma local_history_loop_step:
  assumes "i < 30"
  shows "local_history_loop env dk w today i h =
     (if local_fails env w dk (subDays env today i) then
        Inl (if isl (localStorage_getItem env (local_key env dk (subDays env today i)) w)
             then projl (localStorage_getItem env (local_key env dk (subDays env today i)) w)
             else projl (localStorage_getItem env (timestampKey (local_key env dk (subDays env today i))) w))
      else local_history_loop env dk w today (Suc i)
             (if local_hit env w dk (subDays env today i)
              then h @ [local_entry env w dk (subDays env today i)] else h))"
  using assms
  by (subst local_history_loop.simps)
     (auto simp: Let_def local_fails_def local_hit_def local_entry_def local_key_def split: sum.splits)

lemma local_history_loop_result:
  "i \<le> 30 \<Longrightarrow>
     (if list_ex (local_fails env w dk) (map (subDays env today) [i..<30])
      then isl (local_history_loop env dk w today i h)
      else local_history_loop env dk w today i h =
             Inr (h @ map (local_entry env w dk)
                        (filter (local_hit env w dk) (map (subDays env today) [i..<30]))))"
proof (induction "30 - i" arbitrary: i h)
  case 0
  then have "i = 30" by simp
  then show ?case by (subst local_history_loop.simps) simp
next
  case (Suc n)
  then have i: "i < 30" and n: "n = 30 - Suc i" and le: "Suc i \<le> 30" by simp_all
  have u: "[i..<30] = i # [Suc i..<30]" using i by (simp add: upt_conv_Cons)
  show ?case
  proof (cases "local_fails env w dk (subDays env today i)")
    case True
    then show ?thesis unfolding u local_history_loop_step [OF i] by simp
  next
    case False
    let ?h = "if local_hit env w dk (subDays env today i)
              then h @ [local_entry env w dk (subDays env today i)] else h"
    from Suc.hyps(1) [OF n le, of ?h] False show ?thesis
      unfolding u local_history_loop_step [OF i] by (simp split: if_splits)
  qed
qed

lemma window_decreasing:
  assumes "\<forall>i j. i < j \<and> j < 30 \<longrightarrow> stepBack now j < stepBack now i"
  shows "sorted_wrt (>) (window stepBack now)"
proof -
  have "sorted_wrt (\<lambda>i j. stepBack now i > stepBack now j) [0..<30]"
    unfolding sorted_wrt_iff_nth_less using assms by simp
  then show ?thesis by (simp add: window_def sorted_wrt_map)
qed

lemma plain_window_decreasing: "\<forall>i j. i < j \<and> j < 30 \<longrightarrow> plain_days_before now j < plain_days_before now i"
  by (simp add: plain_days_before_def)

lemma handler_history:
  assumes "http_method req = ''GET''" "url req = Some u" "str_includes u ''/history''"
    "query_dataKey req = Some dk" "dk \<noteq> []"
  shows "fst (handler stepBack toISO now req r) =
        (if list_ex (lookup_fails toISO dk r) (window stepBack now) then failure redis_error
         else \<lparr>status_code = 200,
               payload = History_json (map (day_entry toISO dk r)
                           (filter (day_hit toISO dk r) (window stepBack now)))\<rparr>)"
proof -
  obtain res r' where l: "history_loop stepBack toISO dk now 0 [] r = (res, r')" by (metis prod.exhaust)
  from history_loop_result [of 0 stepBack toISO dk now "[]" r] l
  have res: "res = (if list_ex (lookup_fails toISO dk r) (window stepBack now) then Inl redis_error
      else Inr (map (day_entry toISO dk r) (filter (day_hit toISO dk r) (window stepBack now))))"
    by (simp add: window_def)
  from assms l res show ?thesis by (simp add: handler_def truthy_def)
qed


lemma history_request_shape:
  "http_method history_request = ''GET''"
  "url history_request = Some ''/api/analysis/history?dataKey=all-245-1582340''"
  "str_includes ''/api/analysis/history?dataKey=all-245-1582340'' ''/history''"
  "query_dataKey history_request = Some ''all-245-1582340''"
  "''all-245-1582340'' \<noteq> []"
  by (simp_all add: history_request_def)


text \<open>
  Claim C6, as the code has it. The history scan covers thirty days: the instants that the
  scan itself computes, 0 to 29 calendar days before the instant at which it runs, each
  looked up under the date by which the scan names it (on the server the date part of
  \<^verbatim>\<open>toISOString\<close>, in the browser the local date of \<^verbatim>\<open>format\<close>); the operations that step
  back and name a day are arbitrary. When no lookup in the window errors, a day without a
  stored text is skipped and the scan returns exactly the rows of the days that have one,
  in the order of the window; the endpoint answers 200 with them. When a lookup of any
  day errors, the whole scan is abandoned: the endpoint answers 500, the client receives
  the rejected request as the empty list, and the client's local scan returns the empty
  list as well (\<open>getAnalysisHistory\<close> never throws). The window is ordered from the most
  recent instant to the oldest whenever stepping back more days gives an earlier instant.
\<close>

theorem history_scan_all_or_nothing:
  "(http_method req = ''GET'' \<and> url req = Some u \<and> str_includes u ''/history'' \<and>
    query_dataKey req = Some dk \<and> dk \<noteq> [] \<longrightarrow>
      fst (handler stepBack toISO now req r) =
        (if list_ex (lookup_fails toISO dk r) (window stepBack now) then failure redis_error
         else \<lparr>status_code = 200,
               payload = History_json (map (day_entry toISO dk r)
                           (filter (day_hit toISO dk r) (window stepBack now)))\<rparr>)) \<and>
   (\<not> truthy (CACHE_API_URL env) \<longrightarrow>
      fst (getAnalysisHistory env key w) =
        (if list_ex (local_fails env w key) (window (subDays env) (date_now env w)) then []
         else map (local_entry env w key)
                (filter (local_hit env w key) (window (subDays env) (date_now env w))))) \<and>
   (truthy (CACHE_API_URL env') \<and>
    fst (axios_get_history env' (the (CACHE_API_URL env') @ ''/history'') key' w') = Rejected e \<longrightarrow>
      fst (getAnalysisHistory env' key' w') = []) \<and>
   ((\<forall>i j. i < j \<and> j < 30 \<longrightarrow> stepBack now j < stepBack now i) \<longrightarrow> sorted_wrt (>) (window stepBack now))"
proof (intro conjI impI)
  assume "http_method req = ''GET'' \<and> url req = Some u \<and> str_includes u ''/history'' \<and>
    query_dataKey req = Some dk \<and> dk \<noteq> []"
  then show "fst (handler stepBack toISO now req r) =
        (if list_ex (lookup_fails toISO dk r) (window stepBack now) then failure redis_error
         else \<lparr>status_code = 200,
               payload = History_json (map (day_entry toISO dk r)
                           (filter (day_hit toISO dk r) (window stepBack now)))\<rparr>)"
    by (elim conjE) (rule handler_history)
next
  assume a: "\<not> truthy (CACHE_API_URL env)"
  from local_history_loop_result [of 0 env w key "date_now env w" "[]"] a
  show "fst (getAnalysisHistory env key w) =
        (if list_ex (local_fails env w key) (window (subDays env) (date_now env w)) then []
         else map (local_entry env w key)
                (filter (local_hit env w key) (window (subDays env) (date_now env w))))"
    by (auto simp: getAnalysisHistory_def window_def split: sum.splits if_splits)
next
  assume "truthy (CACHE_API_URL env') \<and>
    fst (axios_get_history env' (the (CACHE_API_URL env') @ ''/history'') key' w') = Rejected e"
  then show "fst (getAnalysisHistory env' key' w') = []"
    by (auto simp: getAnalysisHistory_def split: prod.splits axios_result.splits)
next
  assume "\<forall>i j. i < j \<and> j < 30 \<longrightarrow> stepBack now j < stepBack now i"
  then show "sorted_wrt (>) (window stepBack now)" by (rule window_decreasing)
qed

text \<open>
  The endpoint on a server in UTC at 2025-12-08 10:00 UTC serves the rows of the 8th and of
  the 6th. The browser three hours behind UTC, at 22:00 of its 7th, looks up the 7th first:
  the entry written under the UTC date of the 8th is not in its window, and the row of the
  6th carries the instant that the scan computed for that day. The client of an endpoint
  that answers 500 gets the empty list.
\<close>

theorem history_scan_all_or_nothing_witness:
  "fst (handler plain_days_before toISOString_utc example_now history_request example_store) =
     \<lparr>status_code = 200,
      payload = History_json
        [\<lparr>h_date = ''2025-12-08'', h_analysis = ''text of the 8th'',
          h_timestamp = ''2025-12-08T09:30:00.000Z''\<rparr>,
         \<lparr>h_date = ''2025-12-06'', h_analysis = ''text of the 6th'',
          h_timestamp = ''2025-12-06T10:00:00.000Z''\<rparr>]\<rparr> \<and>
   fst (getAnalysisHistory local_env ''all-245-1582340'' 0) =
     [\<lparr>h_date = ''2025-12-06'', h_analysis = ''text of the 6th'',
       h_timestamp = ''2025-12-07T01:00:00.000Z''\<rparr>] \<and>
   fst (getAnalysisHistory failing_history_env ''all-245-1582340'' 0) = [] \<and>
   sorted_wrt (>) (window plain_days_before example_now)"
proof -
  let ?dk = "''all-245-1582340''"
  let ?e = "Js_error (Some 500) None ''Request failed with status code 500''"
  let ?now = "1765155600000 :: int"
  have rej: "truthy (CACHE_API_URL failing_history_env) \<and>
      fst (axios_get_history failing_history_env
             (the (CACHE_API_URL failing_history_env) @ ''/history'') ?dk 0) = Rejected ?e"
    by (simp add: failing_history_env_def example_env_def truthy_def)
  have nf: "\<not> list_ex (lookup_fails toISOString_utc ?dk example_store) (window plain_days_before example_now)"
    by (simp add: list_ex_iff lookup_fails_def example_store_def)
  have hits: "filter (day_hit toISOString_utc ?dk example_store) (window plain_days_before example_now) =
      [example_now, plain_days_before example_now 2]"
    by (simp add: window_def day_hit_def example_store_def example_now_def truthy_def iso_eval
        upt_conv_Cons)
  have rows: "map (day_entry toISOString_utc ?dk example_store)
        [example_now, plain_days_before example_now 2] =
      [\<lparr>h_date = ''2025-12-08'', h_analysis = ''text of the 8th'',
          h_timestamp = ''2025-12-08T09:30:00.000Z''\<rparr>,
       \<lparr>h_date = ''2025-12-06'', h_analysis = ''text of the 6th'',
          h_timestamp = ''2025-12-06T10:00:00.000Z''\<rparr>]"
    by (simp add: day_entry_def example_store_def example_now_def or_else_def iso_eval)
  have loc: "\<not> truthy (CACHE_API_URL local_env)" "date_now local_env 0 = ?now"
    "subDays local_env = plain_days_before"
    by (simp_all add: local_env_def truthy_def)
  have lnf: "\<not> list_ex (local_fails local_env 0 ?dk) (window plain_days_before ?now)"
    by (simp add: list_ex_iff local_fails_def local_env_def)
  have lhits: "filter (local_hit local_env 0 ?dk) (window plain_days_before ?now) =
      [plain_days_before ?now 1]"
    by (simp add: window_def local_hit_def local_env_def truthy_def iso_eval upt_conv_Cons)
  have lrows: "map (local_entry local_env 0 ?dk) [plain_days_before ?now 1] =
      [\<lparr>h_date = ''2025-12-06'', h_analysis = ''text of the 6th'',
        h_timestamp = ''2025-12-07T01:00:00.000Z''\<rparr>]"
    by (simp add: local_entry_def local_env_def or_else_def iso_eval)
  from history_scan_all_or_nothing [of history_request
      "''/api/analysis/history?dataKey=all-245-1582340''" ?dk plain_days_before toISOString_utc
      example_now example_store local_env ?dk 0 failing_history_env ?dk 0 ?e]
    history_request_shape nf hits rows loc lnf lhits lrows rej
    plain_window_decreasing [of example_now]
  show ?thesis by simp
qed


text \<open>
  Claim C6 as stated fails: on a server in UTC, the store holds today's entry, the lookup
  of yesterday's key errors, and the scan answers 500 instead of the one row that hit.
\<close>

theorem history_scan_counterexample:
  "day_hit toISOString_utc ''all-245-1582340'' broken_store example_now \<and>
   fst (handler plain_days_before toISOString_utc example_now history_request broken_store) =
     \<lparr>status_code = 500, payload = Failure_json msg_failure ''Connection is closed.''\<rparr>"
proof -
  let ?dk = "''all-245-1582340''"
  have "day_hit toISOString_utc ?dk broken_store example_now"
    by (simp add: day_hit_def broken_store_def example_store_def example_now_def truthy_def iso_eval)
  moreover have "lookup_fails toISOString_utc ?dk broken_store (plain_days_before example_now 1)"
    by (simp add: lookup_fails_def broken_store_def example_store_def example_now_def iso_eval)
  then have "list_ex (lookup_fails toISOString_utc ?dk broken_store) (window plain_days_before example_now)"
    by (auto simp: list_ex_iff window_def intro!: bexI [where x = 1])
  with handler_history [OF history_request_shape, of plain_days_before toISOString_utc example_now broken_store]
  have "fst (handler plain_days_before toISOString_utc example_now history_request broken_store) =
      failure redis_error"
    by simp
  ultimately show ?thesis by (simp add: failure_def redis_error_def new_Error_def)
qed

section \<open>Persistence endpoint: claims\<close>

lemma or_else_None: "or_else None d = d"
  by (simp add: or_else_def)

text \<open>
  Claim C10. A POST whose body has a dataKey and a missing or empty analysis is handled
  as a read of today's entry, by the current handler and by the earlier one alike: the
  store's entries are unchanged and the only commands issued are GETs of today's key and
  of its timestamp key. When the lookups do not error the answer is 200 with the cached
  text, \<open>cached = True\<close> and the stored timestamp (the current instant when the timestamp
  key is empty) on a hit, and 404 on a miss; a lookup that errors gives 500.
\<close>

theorem post_without_analysis_is_read:
  assumes "http_method req = ''POST''" and "body req = Some b"
    and "truthy (body_dataKey b)" and "\<not> truthy (body_analysis b)"
  shows "let key = cacheKey (date_part (toISO now)) (the (body_dataKey b));
             item = map_option fst (entries r key);
             ts = map_option fst (entries r (timestampKey key))
         in handler_kv toISO now req r = handler daysBefore toISO now req r \<and>
            entries (snd (handler daysBefore toISO now req r)) = entries r \<and>
            commands (snd (handler daysBefore toISO now req r)) =
              commands r @ (if \<not> failing r key \<and> truthy item then [GET key, GET (timestampKey key)]
                            else [GET key]) \<and>
            fst (handler daysBefore toISO now req r) =
              (if failing r key then failure redis_error
               else if \<not> truthy item then \<lparr>status_code = 404, payload = Miss_json False msg_not_found\<rparr>
               else if failing r (timestampKey key) then failure redis_error
               else \<lparr>status_code = 200,
                     payload = Hit_json (the item) True (or_else ts (toISO now))\<rparr>)"
  using assms
  by (simp add: handler_def handler_kv_def read_entry_def redis_get_def Let_def or_else_None)

theorem post_without_analysis_is_read_witness:
  "handler_kv toISOString_utc example_now empty_post example_store =
     handler plain_days_before toISOString_utc example_now empty_post example_store \<and>
   entries (snd (handler plain_days_before toISOString_utc example_now empty_post example_store)) = entries example_store \<and>
   commands (snd (handler plain_days_before toISOString_utc example_now empty_post example_store)) =
     [GET ''analysis:2025-12-08:all-245-1582340'', GET ''analysis:2025-12-08:all-245-1582340:timestamp''] \<and>
   fst (handler plain_days_before toISOString_utc example_now empty_post example_store) =
     \<lparr>status_code = 200,
      payload = Hit_json ''text of the 8th'' True ''2025-12-08T09:30:00.000Z''\<rparr>"
proof -
  let ?b = "\<lparr>body_dataKey = Some ''all-245-1582340'', body_analysis = Some []\<rparr>"
  have a: "http_method empty_post = ''POST''" "body empty_post = Some ?b"
    "truthy (body_dataKey ?b)" "\<not> truthy (body_analysis ?b)"
    by (simp_all add: empty_post_def truthy_def)
  have k: "cacheKey (date_part (toISOString_utc example_now)) ''all-245-1582340'' =
      ''analysis:2025-12-08:all-245-1582340''"
    by (simp add: iso_eval example_now_def)
  from post_without_analysis_is_read [OF a, of toISOString_utc example_now example_store plain_days_before]
  show ?thesis
    by (simp add: Let_def k timestampKey_def example_store_def truthy_def or_else_def)
qed

section \<open>The analysis component: claims\<close>

lemma generateAnalysis_call_inv:
  "in_flight st = (if isGeneratingRef st then 1 else 0) \<Longrightarrow>
   in_flight (generateAnalysis_call dk st) = (if isGeneratingRef (generateAnalysis_call dk st) then 1 else 0)"
  by (simp add: generateAnalysis_call_def)

lemma step_inv:
  "in_flight st = (if isGeneratingRef st then 1 else 0) \<Longrightarrow>
   in_flight (step ns st ev) = (if isGeneratingRef (step ns st ev) then 1 else 0)"
  by (cases ev)
     (auto simp: useEffect_body_def generateAnalysis_call_def generateAnalysis_settle_def Let_def
       split: sum.splits)

lemma foldl_step_inv:
  "in_flight st = (if isGeneratingRef st then 1 else 0) \<Longrightarrow>
   in_flight (foldl (step ns) st evs) = (if isGeneratingRef (foldl (step ns) st evs) then 1 else 0)"
proof (induction evs arbitrary: st)
  case Nil
  then show ?case by simp
next
  case (Cons ev evs)
  from Cons.IH [OF step_inv [OF Cons.prems, of ns ev]] show ?case by simp
qed

lemma run_inv: "in_flight (run ns evs) = (if isGeneratingRef (run ns evs) then 1 else 0)"
  unfolding run_def by (rule foldl_step_inv) (simp add: mounted_def)

lemma one_row_nonempty: "one_row \<noteq> []"
  by (simp add: one_row_def)


text \<open>
  Claim C1. For one mounted component and every sequence of effect runs, button calls and
  settled promises, at most one call of \<open>generateWeeklyAnalysis\<close> is in flight, and one is
  in flight exactly while the guard \<open>isGeneratingRef\<close> is set. While one is in flight, an
  effect run or a direct call of \<open>generateAnalysis\<close> (with any props, the same
  fingerprint included) starts no further generation. When the pending promise settles,
  with a result or with an error, the guard is released. From an idle component two calls
  in a row start exactly one generation: two direct calls, or two effect runs with a
  fingerprint that was not processed last.
\<close>

theorem single_flight:
  fixes ns :: "'n number_system"
    and evs evs' :: "('n, 'a) ui_event list" and d d' :: "('n, 'a) campaign_row_scheme list"
  shows "in_flight (run ns evs) \<le> 1 \<and>
         (isGeneratingRef (run ns evs) \<longleftrightarrow> in_flight (run ns evs) = 1) \<and>
         (in_flight (run ns evs) = 1 \<longrightarrow>
            started (step ns (run ns evs) (Effect p c d)) = started (run ns evs) \<and>
            started (step ns (run ns evs) (Click p c d)) = started (run ns evs) \<and>
            in_flight (step ns (run ns evs) (Effect p c d)) = 1 \<and>
            in_flight (step ns (run ns evs) (Click p c d)) = 1 \<and>
            \<not> isGeneratingRef (step ns (run ns evs) (Settle outcome)) \<and>
            in_flight (step ns (run ns evs) (Settle outcome)) = 0) \<and>
         (in_flight (run ns evs') = 0 \<and> dataKey ns p' c' d' \<noteq> None \<longrightarrow>
            started (step ns (step ns (run ns evs') (Click p' c' d')) (Click p' c' d')) =
              Suc (started (run ns evs')) \<and>
            in_flight (step ns (step ns (run ns evs') (Click p' c' d')) (Click p' c' d')) = 1) \<and>
         (in_flight (run ns evs') = 0 \<and> dataKey ns p' c' d' \<noteq> None \<and>
          dataKey ns p' c' d' \<noteq> lastProcessedKeyRef (run ns evs') \<longrightarrow>
            started (step ns (step ns (run ns evs') (Effect p' c' d')) (Effect p' c' d')) =
              Suc (started (run ns evs')) \<and>
            in_flight (step ns (step ns (run ns evs') (Effect p' c' d')) (Effect p' c' d')) = 1)"
proof -
  have inv: "in_flight (run ns evs) = (if isGeneratingRef (run ns evs) then 1 else 0)"
    by (rule run_inv)
  have inv': "in_flight (run ns evs') = (if isGeneratingRef (run ns evs') then 1 else 0)"
    by (rule run_inv)
  have k: "truthy (dataKey ns p' c' d') \<and> p' = Seven_days \<and> d' \<noteq> []"
    if "dataKey ns p' c' d' \<noteq> None"
    using that by (auto simp: dataKey_def truthy_def or_else_def Let_def split: if_splits)
  show ?thesis
    using inv inv' k
    by (auto simp: useEffect_body_def generateAnalysis_call_def generateAnalysis_settle_def Let_def
        split: sum.splits if_splits)
qed

theorem single_flight_witness:
  "in_flight (run integers [Effect Seven_days None one_row]) = 1 \<and>
   started (run integers [Effect Seven_days None one_row, Effect Seven_days None one_row]) = 1 \<and>
   started (run integers [Effect Seven_days None one_row, Click Seven_days None one_row]) = 1 \<and>
   \<not> isGeneratingRef (run integers [Effect Seven_days None one_row,
                                   Settle (Inl (new_Error ''Network Error''))]) \<and>
   started (run integers [Click Seven_days None one_row, Click Seven_days None one_row]) = 1"
proof -
  let ?e = "Effect Seven_days None one_row" and ?c = "Click Seven_days None one_row"
  let ?s = "Settle (Inl (new_Error ''Network Error'')) :: (int, unit) ui_event"
  let ?n = "[] :: (int, unit) ui_event list"
  have a: "in_flight (run integers [?e]) = 1"
    by (simp add: run_def mounted_def useEffect_body_def generateAnalysis_call_def one_row_key
        one_row_nonempty truthy_def Let_def)
  have b: "in_flight (run integers ?n) = 0 \<and> dataKey integers Seven_days None one_row \<noteq> None \<and>
      dataKey integers Seven_days None one_row \<noteq> lastProcessedKeyRef (run integers ?n)"
    by (simp add: run_def mounted_def one_row_key)
  have r: "run integers [?e, x] = step integers (run integers [?e]) x"
    "run integers [x, y] = step integers (step integers (run integers ?n) x) y"
    "started (run integers [?e]) = 1" "started (run integers ?n) = 0" for x y :: "(int, unit) ui_event"
    by (simp_all add: run_def mounted_def useEffect_body_def generateAnalysis_call_def one_row_key
        one_row_nonempty truthy_def Let_def)
  from single_flight [of integers "[?e]" Seven_days None one_row "Inl (new_Error ''Network Error'')" "[]"
      Seven_days None one_row] a b
  have t: "started (step integers (run integers [?e]) ?e) = started (run integers [?e])"
    "started (step integers (run integers [?e]) ?c) = started (run integers [?e])"
    "\<not> isGeneratingRef (step integers (run integers [?e]) ?s)"
    "started (step integers (step integers (run integers ?n) ?c) ?c) =
       Suc (started (run integers ?n))"
    by blast+
  have "started (run integers [?e, ?e]) = 1" by (simp only: r(1) t(1) r(3))
  moreover have "started (run integers [?e, ?c]) = 1" by (simp only: r(1) t(2) r(3))
  moreover have "\<not> isGeneratingRef (run integers [?e, ?s])" by (simp only: r(1) t(3) simp_thms)
  moreover have "started (run integers [?c, ?c]) = 1" by (simp only: r(2) t(4) r(4) One_nat_def)
  ultimately show ?thesis using a by blast
qed

end
